theory Spec2Isabelle
  imports Complex_Main "HOL-Library.Multiset" "HOL-Library.Char_ord" "HOL-Library.List_Lexorder"
begin

section \<open>util/completion.ts: prefix completions\<close>

text \<open>
  JavaScript strings are modelled as \<^typ>\<open>string\<close> (a list of code units).
  \<^verbatim>\<open>s.startsWith(prefix)\<close> compares the first \<open>length prefix\<close> code units.
\<close>

fun startsWith :: "string \<Rightarrow> string \<Rightarrow> bool" where
  "startsWith s [] = True"
| "startsWith [] (p # ps) = False"
| "startsWith (c # s) (p # ps) = (c = p \<and> startsWith s ps)"

text \<open>
  \<^verbatim>\<open>Array.prototype.sort(compareFn)\<close> is a stable sort: an element is placed before
  another exactly when the comparator does not put it after. The model is the stable
  insertion sort; \<open>compareFn a b \<le> 0\<close> reads "a may stay in front of b".
\<close>

fun sort_insert :: "('a \<Rightarrow> 'a \<Rightarrow> int) \<Rightarrow> 'a \<Rightarrow> 'a list \<Rightarrow> 'a list" where
  "sort_insert compareFn x [] = [x]"
| "sort_insert compareFn x (y # ys) =
     (if compareFn x y \<le> 0 then x # y # ys else y # sort_insert compareFn x ys)"

definition array_sort :: "('a \<Rightarrow> 'a \<Rightarrow> int) \<Rightarrow> 'a list \<Rightarrow> 'a list" where
  "array_sort compareFn xs = foldr (sort_insert compareFn) xs []"

record Completion =
  cvalue :: string

record CompletionWithDescription = Completion +
  description :: "string option"

text \<open>
  \<^verbatim>\<open>defaultStringCompare\<close> lives in util/string.ts, which is not part of the sources at
  hand; it is a parameter of both functions.
\<close>

fun getPrefixMatches_loop :: "string \<Rightarrow> string list \<Rightarrow> Completion list \<Rightarrow> Completion list" where
  "getPrefixMatches_loop prefix [] result = result"
| "getPrefixMatches_loop prefix (option # options) result =
     getPrefixMatches_loop prefix options
       (if startsWith option prefix then result @ [\<lparr>cvalue = option\<rparr>] else result)"

definition getPrefixMatches ::
  "(string \<Rightarrow> string \<Rightarrow> int) \<Rightarrow> string \<Rightarrow> string list \<Rightarrow> Completion list" where
  "getPrefixMatches defaultStringCompare prefix options =
     array_sort (\<lambda>a b. defaultStringCompare (cvalue a) (cvalue b))
       (getPrefixMatches_loop prefix options [])"

fun getPrefixMatchesWithDescriptions_loop ::
  "string \<Rightarrow> 't list \<Rightarrow> ('t \<Rightarrow> string) \<Rightarrow> ('t \<Rightarrow> string option) \<Rightarrow>
   CompletionWithDescription list \<Rightarrow> CompletionWithDescription list" where
  "getPrefixMatchesWithDescriptions_loop prefix [] getValue getDescription result = result"
| "getPrefixMatchesWithDescriptions_loop prefix (option # options) getValue getDescription result =
     (let key = getValue option in
      getPrefixMatchesWithDescriptions_loop prefix options getValue getDescription
        (if startsWith key prefix
         then result @ [\<lparr>cvalue = key, description = getDescription option\<rparr>]
         else result))"

definition getPrefixMatchesWithDescriptions ::
  "(string \<Rightarrow> string \<Rightarrow> int) \<Rightarrow> string \<Rightarrow> 't list \<Rightarrow> ('t \<Rightarrow> string) \<Rightarrow>
   ('t \<Rightarrow> string option) \<Rightarrow> CompletionWithDescription list" where
  "getPrefixMatchesWithDescriptions defaultStringCompare prefix options getValue getDescription =
     array_sort (\<lambda>a b. defaultStringCompare (cvalue a) (cvalue b))
       (getPrefixMatchesWithDescriptions_loop prefix options getValue getDescription [])"

text \<open>
  A comparator is consistent when it is total and transitive as a preorder; the
  language leaves the order produced by \<^verbatim>\<open>sort\<close> open otherwise.
\<close>

definition consistent_comparator :: "('a \<Rightarrow> 'a \<Rightarrow> int) \<Rightarrow> bool" where
  "consistent_comparator compareFn \<longleftrightarrow>
     (\<forall>a b. compareFn a b \<le> 0 \<or> compareFn b a \<le> 0) \<and>
     (\<forall>a b c. compareFn a b \<le> 0 \<longrightarrow> compareFn b c \<le> 0 \<longrightarrow> compareFn a c \<le> 0)"

text \<open>A comparator on code units, used to run the functions on concrete inputs.\<close>

definition codeUnitCompare :: "string \<Rightarrow> string \<Rightarrow> int" where
  "codeUnitCompare a b = (if a < b then - 1 else if b < a then 1 else 0)"

section \<open>Retry delay (http request helper)\<close>


definition minDelayMilliseconds :: real where
  "minDelayMilliseconds = 500"

definition maxDelayMilliseconds :: real where
  "maxDelayMilliseconds = 10000"

text \<open>
  Numbers are IEEE doubles: the result of an addition or a multiplication is the exact
  result rounded to 53 significant bits, ties to the even neighbour. \<open>double_round\<close> is
  that rounding for magnitudes in the normal range (overflow and subnormal numbers are
  not modelled).
\<close>

definition round_half_even :: "real \<Rightarrow> int" where
  "round_half_even x =
     (let f = \<lfloor>x\<rfloor> in
      if x - of_int f < 1 / 2 then f
      else if 1 / 2 < x - of_int f then f + 1
      else if even f then f else f + 1)"

definition double_round :: "real \<Rightarrow> real" where
  "double_round x =
     (if x = 0 then 0
      else (let ulp = 2 powr (of_int \<lfloor>log 2 \<bar>x\<bar>\<rfloor> - 52)
            in sgn x * ulp * of_int (round_half_even (\<bar>x\<bar> / ulp))))"

text \<open>
  \<^verbatim>\<open>Math.random()\<close> is the second argument: a double in \<open>[0, 1)\<close>. The first factor,
  \<^verbatim>\<open>Math.min(2 ** attemptNumber * minDelayMilliseconds, maxDelayMilliseconds / 2)\<close>, is
  exact in doubles: \<open>2^n * 500\<close> has seven significant bits, and where it overflows to
  infinity the minimum is 5000 as well. The sum and the product are rounded.
\<close>

definition pickDelay :: "nat \<Rightarrow> real \<Rightarrow> real" where
  "pickDelay attemptNumber random =
     double_round
       (min (2 ^ attemptNumber * minDelayMilliseconds) (maxDelayMilliseconds / 2) *
        double_round (1 + random))"

definition baseDelay :: "nat \<Rightarrow> real" where
  "baseDelay attemptNumber = min (2 ^ attemptNumber * 500) 5000"

section \<open>sliceview/renderlayer.ts: visible sources of a render layer\<close>

datatype js_error = TypeError string | Error string

record ('s, 'ct) VisibleSourceInfo =
  source :: 's
  refCount :: int
  chunkTransform :: 'ct

text \<open>
  \<open>visibleSources\<close> is a \<^verbatim>\<open>Map\<close> keyed by the source object. The cached list
  \<open>visibleSourcesList_\<close> holds the very info objects of the map, so it is kept as the list
  of their keys; the two functions below only ever truncate it.
\<close>

record ('s, 'ct) SliceViewRenderLayer =
  visibleSources :: "'s \<rightharpoonup> ('s, 'ct) VisibleSourceInfo"
  visibleSourcesList :: "'s list"

definition addSource ::
  "('s, 'ct) SliceViewRenderLayer \<Rightarrow> 's \<Rightarrow> 'ct \<Rightarrow> ('s, 'ct) SliceViewRenderLayer" where
  "addSource this src chunkTransform' =
     (case visibleSources this src of
        Some info \<Rightarrow>
          this\<lparr>visibleSources := (visibleSources this)
            (src \<mapsto> info\<lparr>refCount := refCount info + 1, chunkTransform := chunkTransform'\<rparr>)\<rparr>
      | None \<Rightarrow>
          this\<lparr>visibleSources := (visibleSources this)
            (src \<mapsto> \<lparr>source = src, refCount = 1, chunkTransform = chunkTransform'\<rparr>),
            visibleSourcesList := []\<rparr>)"

text \<open>
  \<^verbatim>\<open>visibleSources.get(source)!\<close> on a source that is not registered is \<^verbatim>\<open>undefined\<close>, and
  reading its \<open>refCount\<close> throws a \<^verbatim>\<open>TypeError\<close>.
\<close>

definition removeSource ::
  "('s, 'ct) SliceViewRenderLayer \<Rightarrow> 's \<Rightarrow> js_error + ('s, 'ct) SliceViewRenderLayer" where
  "removeSource this src =
     (case visibleSources this src of
        None \<Rightarrow> Inl (TypeError ''info is undefined'')
      | Some info \<Rightarrow>
          if refCount info \<noteq> 1
          then Inr (this\<lparr>visibleSources := (visibleSources this)
                 (src \<mapsto> info\<lparr>refCount := refCount info - 1\<rparr>)\<rparr>)
          else Inr (this\<lparr>visibleSources := (visibleSources this)(src := None),
                 visibleSourcesList := []\<rparr>))"

text \<open>
  Modelled from the spec: the reference count of a chunk source object (\<open>RefCounted\<close>,
  util/disposable.ts, not at hand). Every consumer increments the count of a source on
  acquisition and decrements it on release; \<open>dispose\<close> is the release of one reference.
  A store holds a render layer and the reference count of every source object.
\<close>

record ('s, 'ct) LayerStore =
  store_layer :: "('s, 'ct) SliceViewRenderLayer"
  sourceReferences :: "'s \<Rightarrow> int"

definition dispose :: "('s, 'ct) LayerStore \<Rightarrow> 's \<Rightarrow> ('s, 'ct) LayerStore" where
  "dispose store src =
     store\<lparr>sourceReferences := (sourceReferences store)(src := sourceReferences store src - 1)\<rparr>"

text \<open>
  The two methods as calls in a store. Their bodies call neither \<open>addRef\<close> nor \<open>dispose\<close>
  (the layer's reference to a source is \<^verbatim>\<open>Borrowed\<close>): they act on the layer alone.
\<close>

definition addSource_call ::
  "('s, 'ct) LayerStore \<Rightarrow> 's \<Rightarrow> 'ct \<Rightarrow> ('s, 'ct) LayerStore" where
  "addSource_call store src chunkTransform' =
     store\<lparr>store_layer := addSource (store_layer store) src chunkTransform'\<rparr>"

definition removeSource_call ::
  "('s, 'ct) LayerStore \<Rightarrow> 's \<Rightarrow> js_error + ('s, 'ct) LayerStore" where
  "removeSource_call store src =
     (case removeSource (store_layer store) src of
        Inl e \<Rightarrow> Inl e
      | Inr layer \<Rightarrow> Inr (store\<lparr>store_layer := layer\<rparr>))"

text \<open>A store to run the calls on: one source, registered once, with two references.\<close>

definition exampleStore :: "(nat, string) LayerStore" where
  "exampleStore =
     \<lparr>store_layer = \<lparr>visibleSources = [7 \<mapsto> \<lparr>source = 7, refCount = 1, chunkTransform = ''t1''\<rparr>],
                      visibleSourcesList = [7]\<rparr>,
      sourceReferences = (\<lambda>src. if src = 7 then 2 else 0)\<rparr>"

definition exampleStoreRemoved :: "(nat, string) LayerStore" where
  "exampleStoreRemoved =
     \<lparr>store_layer = \<lparr>visibleSources = Map.empty, visibleSourcesList = []\<rparr>,
      sourceReferences = (\<lambda>src. if src = 7 then 2 else 0)\<rparr>"

section \<open>Uncompressed volume chunks: reading one value\<close>

datatype DataType = UINT8 | INT8 | UINT16 | INT16 | UINT32 | INT32 | UINT64 | FLOAT32

text \<open>
  What \<open>getValueAt\<close> hands back: an array element, a two-word \<^verbatim>\<open>Uint64\<close> built from two
  array reads, or \<^verbatim>\<open>undefined\<close> for a read outside the array.
\<close>

datatype 'e js_value = Number 'e | Uint64 "'e option" "'e option" | Undefined

text \<open>Reading a typed array at an index: \<^verbatim>\<open>undefined\<close> outside \<open>[0, length)\<close>.\<close>

definition array_get :: "'a list \<Rightarrow> int \<Rightarrow> 'a option" where
  "array_get xs i = (if 0 \<le> i \<and> i < int (length xs) then Some (xs ! nat i) else None)"

text \<open>
  Numbers of the index computation are naturals, or \<open>None\<close> for \<^verbatim>\<open>NaN\<close>, which arises when
  \<open>chunkDataSize\<close> is read beyond its end; \<^verbatim>\<open>NaN\<close> is absorbing for \<open>+\<close> and \<open>*\<close>.
\<close>

definition num_add :: "nat option \<Rightarrow> nat option \<Rightarrow> nat option" where
  "num_add a b = (case (a, b) of (Some x, Some y) \<Rightarrow> Some (x + y) | _ \<Rightarrow> None)"

definition num_mul :: "nat option \<Rightarrow> nat option \<Rightarrow> nat option" where
  "num_mul a b = (case (a, b) of (Some x, Some y) \<Rightarrow> Some (x * y) | _ \<Rightarrow> None)"

record 'e UncompressedVolumeChunk =
  data :: "'e list option"
  chunkDataSize :: "nat list"
  dataType :: DataType
  fillValue :: "'e js_value"

text \<open>The loop over \<open>i < rank\<close>, started at \<open>i\<close> with the running \<open>index\<close> and \<open>stride\<close>.\<close>

function getValueAt_loop ::
  "nat list \<Rightarrow> nat list \<Rightarrow> nat \<Rightarrow> nat option \<Rightarrow> nat option \<Rightarrow> nat option" where
  "getValueAt_loop dataPosition chunkDataSize' i index stride =
     (if i < length dataPosition
      then getValueAt_loop dataPosition chunkDataSize' (i + 1)
             (num_add index (num_mul stride (Some (dataPosition ! i))))
             (num_mul stride (array_get chunkDataSize' (int i)))
      else index)"
  by pat_completeness auto
termination
  by (relation "measure (\<lambda>(dataPosition, chunkDataSize', i, index, stride). length dataPosition - i)") auto

declare getValueAt_loop.simps [simp del]

definition data_get :: "'e list \<Rightarrow> nat option \<Rightarrow> 'e option" where
  "data_get d index = (case index of None \<Rightarrow> None | Some i \<Rightarrow> array_get d (int i))"

definition getValueAt :: "'e UncompressedVolumeChunk \<Rightarrow> nat list \<Rightarrow> 'e js_value" where
  "getValueAt this dataPosition =
     (case data this of
        None \<Rightarrow> fillValue this
      | Some d \<Rightarrow>
          (let index = getValueAt_loop dataPosition (chunkDataSize this) 0 (Some 0) (Some 1) in
           case dataType this of
             UINT64 \<Rightarrow>
               (let index2 = num_mul index (Some 2) in
                Uint64 (data_get d index2) (data_get d (num_add index2 (Some 1))))
           | _ \<Rightarrow> (case data_get d index of None \<Rightarrow> Undefined | Some v \<Rightarrow> Number v)))"

text \<open>The linear index with the first dimension varying fastest.\<close>

definition linearIndex :: "nat list \<Rightarrow> nat list \<Rightarrow> nat" where
  "linearIndex dataPosition chunkDataSize' =
     (\<Sum>i < length dataPosition. dataPosition ! i * prod_list (take i chunkDataSize'))"

section \<open>Decimal rendering of numbers in messages\<close>

definition digit_char :: "nat \<Rightarrow> char" where
  "digit_char d = ''0123456789'' ! d"

function showNat :: "nat \<Rightarrow> string" where
  "showNat n = (if n < 10 then [digit_char n] else showNat (n div 10) @ [digit_char (n mod 10)])"
  by pat_completeness auto
termination
  by (relation "measure id") auto

declare showNat.simps [simp del]

text \<open>A template literal or \<open>+\<close> renders \<^verbatim>\<open>undefined\<close> by its name.\<close>

definition showNumber :: "nat option \<Rightarrow> string" where
  "showNumber v = (case v of None \<Rightarrow> ''undefined'' | Some n \<Rightarrow> showNat n)"

definition showString :: "string option \<Rightarrow> string" where
  "showString v = (case v of None \<Rightarrow> ''undefined'' | Some s \<Rightarrow> s)"

section \<open>sliceview/backend_chunk_decoders/raw.ts: decoding a raw chunk\<close>

datatype Endianness = LITTLE | BIG

text \<open>
  The chunk as the decoder reads it: the data type of the specification of its source
  and its \<open>chunkDataSize\<close> (both asserted non-null by the code).
\<close>

record VolumeChunk =
  spec_dataType :: DataType
  chunk_chunkDataSize :: "nat list"

text \<open>
  Modelled from the spec: \<^verbatim>\<open>makeDataTypeArrayView(dataType, response)\<close> (util/data_type.ts,
  not at hand). The decode step returns a typed buffer matching the declared element
  type: the view is the pair of the data type and the response buffer.
\<close>

record 'b TypedArrayView =
  view_dataType :: DataType
  view_buffer :: "'b list"

definition makeDataTypeArrayView :: "DataType \<Rightarrow> 'b list \<Rightarrow> 'b TypedArrayView" where
  "makeDataTypeArrayView dataType' response = \<lparr>view_dataType = dataType', view_buffer = response\<rparr>"

definition rawSizeMessage :: "nat \<Rightarrow> nat \<Rightarrow> nat \<Rightarrow> nat \<Rightarrow> string" where
  "rawSizeMessage byteLength numElements bytesPerElement expectedBytes =
     ''Raw-format chunk is '' @ showNat byteLength @ '' bytes, '' @
     ''but '' @ showNat numElements @ '' * '' @ showNat bytesPerElement @ '' = '' @
     showNat expectedBytes @ '' bytes are expected.''"

text \<open>
  The table \<open>DATA_TYPE_BYTES\<close>, the platform's \<open>ENDIANNESS\<close>, \<open>convertEndian\<close> and
  \<open>postProcessRawData\<close> come from modules that are not at hand and are parameters;
  \<^verbatim>\<open>vector.prod\<close> is the product of the entries. The optional last argument defaults
  to \<open>ENDIANNESS\<close>. Arithmetic is exact.
\<close>

definition decodeRawChunk ::
  "(DataType \<Rightarrow> nat) \<Rightarrow> Endianness \<Rightarrow> ('b list \<Rightarrow> nat \<Rightarrow> Endianness \<Rightarrow> 'b list) \<Rightarrow>
   (VolumeChunk \<Rightarrow> 'b TypedArrayView \<Rightarrow> js_error + 'c) \<Rightarrow>
   VolumeChunk \<Rightarrow> 'b list \<Rightarrow> Endianness option \<Rightarrow> js_error + 'c" where
  "decodeRawChunk DATA_TYPE_BYTES ENDIANNESS convertEndian postProcessRawData chunk response endianness' =
     (let endianness = (case endianness' of None \<Rightarrow> ENDIANNESS | Some e \<Rightarrow> e);
          dataType' = spec_dataType chunk;
          numElements = prod_list (chunk_chunkDataSize chunk);
          bytesPerElement = DATA_TYPE_BYTES dataType';
          expectedBytes = numElements * bytesPerElement
      in if expectedBytes \<noteq> length response
         then Inl (Error (rawSizeMessage (length response) numElements bytesPerElement expectedBytes))
         else
           (let data' = makeDataTypeArrayView dataType' response;
                data'' = (if endianness \<noteq> ENDIANNESS
                          then data'\<lparr>view_buffer := convertEndian (view_buffer data') bytesPerElement endianness\<rparr>
                          else data')
            in postProcessRawData chunk data''))"

text \<open>The element widths by the names of the data types, to run the decoder on concrete inputs.\<close>

definition elementBytes :: "DataType \<Rightarrow> nat" where
  "elementBytes t = (case t of UINT8 \<Rightarrow> 1 | INT8 \<Rightarrow> 1 | UINT16 \<Rightarrow> 2 | INT16 \<Rightarrow> 2
                     | UINT32 \<Rightarrow> 4 | INT32 \<Rightarrow> 4 | UINT64 \<Rightarrow> 8 | FLOAT32 \<Rightarrow> 4)"

fun swapElements :: "'b list \<Rightarrow> nat \<Rightarrow> Endianness \<Rightarrow> 'b list" where
  "swapElements [] n e = []"
| "swapElements (b # bs) n e =
     (if n = 0 then b # bs else rev (take n (b # bs)) @ swapElements (drop n (b # bs)) n e)"

section \<open>sliceview/frontend.ts: the transformed sources of a render layer\<close>

text \<open>
  Modelled from the spec: \<open>MessageList\<close> and \<open>MessageSeverity\<close> (util/message_list.ts, not
  at hand). A layer has a list of diagnostic messages, to which a descriptive message
  is attached: the list of its messages, emptied by \<open>clearMessages\<close> and extended by one
  message by \<open>addMessage\<close>. Of the severities only \<^verbatim>\<open>MessageSeverity.error\<close> occurs here.
\<close>

datatype MessageSeverity = error | other_severity

record Message =
  severity :: MessageSeverity
  message :: string

type_synonym MessageList = "Message list"

definition clearMessages :: "MessageList \<Rightarrow> MessageList" where
  "clearMessages messages = []"

definition addMessage :: "MessageList \<Rightarrow> Message \<Rightarrow> MessageList" where
  "addMessage messages m = messages @ [m]"

record DisplayDimensionRenderInfo =
  displayRank :: nat
  globalDimensionNames :: "string list"
  displayDimensionIndices :: "int list"

text \<open>
  A render layer transform, or an error: \<open>transform_error\<close> is the \<^verbatim>\<open>error\<close> member,
  \<open>None\<close> when it is \<^verbatim>\<open>undefined\<close>. Matrices are values of a type \<open>'m\<close> that is left open
  (arrays of floating-point numbers).
\<close>

record 'm RenderLayerTransformOrError =
  transform_error :: "string option"
  rank :: nat
  unpaddedRank :: nat
  modelToRenderLayerTransform :: 'm
  channelToRenderLayerDimensions :: "int list"
  channelSpaceShape :: "nat list"
  layerDimensionNames :: "string list"

text \<open>A chunk source object, with the \<open>chunkDataSize\<close> of its specification.\<close>

record SliceViewChunkSource =
  sourceId :: nat
  spec_chunkDataSize :: "nat list"

record 'm SliceViewSingleResolutionSource =
  chunkSource :: SliceViewChunkSource
  chunkToMultiscaleTransform :: 'm
  lowerClipBound :: "'m option"
  upperClipBound :: "'m option"

record 'm SliceViewSourceOptions =
  options_displayRank :: nat
  multiscaleToViewTransform :: 'm
  modelChannelDimensionIndices :: "int list"

text \<open>
  The result of \<open>getChunkTransformParameters\<close> (render/render_coordinate_transform.ts,
  not at hand): the one member read here, and the others as a value of type \<open>'x\<close>.
\<close>

record 'x ChunkTransformParameters =
  channelToChunkDimensionIndices :: "int list"
  otherChunkTransformParameters :: 'x

text \<open>
  A transformed source: its source, its chunk transform, and as \<open>ts_geometry\<close> the
  display transform, bounds, chunk layout and voxel size that the function computes
  with floating-point geometry.
\<close>

record ('x, 'g) FrontendTransformedSource =
  ts_source :: SliceViewChunkSource
  ts_chunkTransform :: "'x ChunkTransformParameters"
  ts_geometry :: 'g

definition error_message :: "js_error \<Rightarrow> string" where
  "error_message e = (case e of TypeError m \<Rightarrow> m | Error m \<Rightarrow> m)"

text \<open>\<^verbatim>\<open>Array.prototype.join\<close>: an \<^verbatim>\<open>undefined\<close> element is rendered as the empty string.\<close>

fun js_join :: "string \<Rightarrow> string option list \<Rightarrow> string" where
  "js_join sep [] = []"
| "js_join sep [x] = (case x of None \<Rightarrow> [] | Some s \<Rightarrow> s)"
| "js_join sep (x # y # ys) = (case x of None \<Rightarrow> [] | Some s \<Rightarrow> s) @ sep @ js_join sep (y # ys)"

text \<open>The separator: a comma and a no-break space (the code unit \<open>0xA0\<close>).\<close>

definition dimensionSeparator :: string where
  "dimensionSeparator = [CHR '','', CHR 0xA0]"

definition dimensionDesc :: "DisplayDimensionRenderInfo \<Rightarrow> string" where
  "dimensionDesc info =
     js_join dimensionSeparator
       (map (\<lambda>i. array_get (globalDimensionNames info) i)
          (filter (\<lambda>i. i \<noteq> - 1) (displayDimensionIndices info)))"

definition channelExtentMessage ::
  "'m RenderLayerTransformOrError \<Rightarrow> nat list \<Rightarrow> nat \<Rightarrow> int \<Rightarrow> string" where
  "channelExtentMessage transform chunkDataSize' channelDim chunkDim =
     ''Channel dimension '' @
     showString (case array_get (channelToRenderLayerDimensions transform) (int channelDim) of
                   None \<Rightarrow> None
                 | Some layerDim \<Rightarrow> array_get (layerDimensionNames transform) layerDim) @
     '' has extent '' @ showNumber (array_get (channelSpaceShape transform) (int channelDim)) @
     '' but corresponding chunk dimension has extent '' @
     showNumber (array_get chunkDataSize' chunkDim)"

text \<open>
  The loop over the channel dimensions, from \<open>channelDim\<close> on, over the remaining
  entries of \<open>channelToChunkDimensionIndices\<close>: the message of the error it throws, or
  \<open>None\<close> when it runs to its end. \<open>!==\<close> on two array reads compares numbers, and
  \<^verbatim>\<open>undefined\<close> with itself as equal.
\<close>

fun checkChannelDimensions ::
  "'m RenderLayerTransformOrError \<Rightarrow> nat list \<Rightarrow> int list \<Rightarrow> nat \<Rightarrow> string option" where
  "checkChannelDimensions transform chunkDataSize' [] channelDim = None"
| "checkChannelDimensions transform chunkDataSize' (chunkDim # rest) channelDim =
     (if chunkDim = - 1 then checkChannelDimensions transform chunkDataSize' rest (channelDim + 1)
      else if array_get chunkDataSize' chunkDim \<noteq> array_get (channelSpaceShape transform) (int channelDim)
      then Some (channelExtentMessage transform chunkDataSize' channelDim chunkDim)
      else checkChannelDimensions transform chunkDataSize' rest (channelDim + 1))"

text \<open>
  \<open>getTransformedSource\<close>. The two collaborators that are not at hand are parameters and
  may throw: \<open>getChunkTransformParameters\<close>, and \<open>makeGeometry\<close> for everything after
  the check (\<open>getChunkDisplayTransformParameters\<close>, the display bounds, \<open>ChunkLayout\<close>).
\<close>

definition getTransformedSource ::
  "('m RenderLayerTransformOrError \<Rightarrow> 'm \<Rightarrow> js_error + 'x ChunkTransformParameters) \<Rightarrow>
   ('m RenderLayerTransformOrError \<Rightarrow> 'm SliceViewSingleResolutionSource \<Rightarrow>
      'x ChunkTransformParameters \<Rightarrow> js_error + 'g) \<Rightarrow>
   'm RenderLayerTransformOrError \<Rightarrow> 'm SliceViewSingleResolutionSource \<Rightarrow>
   js_error + ('x, 'g) FrontendTransformedSource" where
  "getTransformedSource getChunkTransformParameters makeGeometry transform singleResolutionSource =
     (let src = chunkSource singleResolutionSource in
      case getChunkTransformParameters transform (chunkToMultiscaleTransform singleResolutionSource) of
        Inl e \<Rightarrow> Inl e
      | Inr chunkTransform' \<Rightarrow>
          (case checkChannelDimensions transform (spec_chunkDataSize src)
                  (channelToChunkDimensionIndices chunkTransform') 0 of
             Some m \<Rightarrow> Inl (Error m)
           | None \<Rightarrow>
               (case makeGeometry transform singleResolutionSource chunkTransform' of
                  Inl e \<Rightarrow> Inl e
                | Inr g \<Rightarrow> Inr \<lparr>ts_source = src, ts_chunkTransform = chunkTransform',
                                ts_geometry = g\<rparr>)))"

text \<open>\<^verbatim>\<open>Array.prototype.map\<close> with a callback that may throw: the first throw ends it.\<close>

fun map_throw :: "('a \<Rightarrow> 'e + 'b) \<Rightarrow> 'a list \<Rightarrow> 'e + 'b list" where
  "map_throw f [] = Inr []"
| "map_throw f (x # xs) =
     (case f x of
        Inl e \<Rightarrow> Inl e
      | Inr y \<Rightarrow> (case map_throw f xs of Inl e \<Rightarrow> Inl e | Inr ys \<Rightarrow> Inr (y # ys)))"

text \<open>
  What a call leaves behind: the returned sources, the message list, and the sources
  on which \<open>dispose\<close> was called, in order.
\<close>

record ('x, 'g) TransformedSourcesResult =
  result_sources :: "('x, 'g) FrontendTransformedSource list list"
  result_messages :: MessageList
  result_disposed :: "SliceViewChunkSource list"

definition returnError :: "MessageList \<Rightarrow> SliceViewChunkSource list \<Rightarrow> string \<Rightarrow>
    ('x, 'g) TransformedSourcesResult" where
  "returnError messages disposed m =
     \<lparr>result_sources = [],
      result_messages = addMessage messages \<lparr>severity = error, message = m\<rparr>,
      result_disposed = disposed\<rparr>"

text \<open>
  \<open>getVolumetricTransformedSources\<close>. The matrix \<open>multiscaleToViewTransform\<close> that the two
  loops fill is computed by the parameter \<open>viewTransform\<close>; \<open>getSources\<close> is the callback,
  called outside the \<^verbatim>\<open>try\<close> block, so what it throws leaves the function (\<open>Inl\<close>).
  The argument \<open>layer\<close> is only stored in every transformed source and is left out.
\<close>

definition getVolumetricTransformedSources ::
  "(nat \<Rightarrow> 'm RenderLayerTransformOrError \<Rightarrow> 'm) \<Rightarrow>
   ('m RenderLayerTransformOrError \<Rightarrow> 'm \<Rightarrow> js_error + 'x ChunkTransformParameters) \<Rightarrow>
   ('m RenderLayerTransformOrError \<Rightarrow> 'm SliceViewSingleResolutionSource \<Rightarrow>
      'x ChunkTransformParameters \<Rightarrow> js_error + 'g) \<Rightarrow>
   DisplayDimensionRenderInfo \<Rightarrow> 'm RenderLayerTransformOrError \<Rightarrow>
   ('m SliceViewSourceOptions \<Rightarrow> js_error + 'm SliceViewSingleResolutionSource list list) \<Rightarrow>
   MessageList \<Rightarrow> js_error + ('x, 'g) TransformedSourcesResult" where
  "getVolumetricTransformedSources viewTransform getChunkTransformParameters makeGeometry
     displayDimensionRenderInfo transform getSources messages =
     (let messages' = clearMessages messages in
      case transform_error transform of
        Some e \<Rightarrow> Inr (returnError messages' [] e)
      | None \<Rightarrow>
          (case getSources
                  \<lparr>options_displayRank = displayRank displayDimensionRenderInfo,
                   multiscaleToViewTransform =
                     viewTransform (displayRank displayDimensionRenderInfo) transform,
                   modelChannelDimensionIndices = channelToRenderLayerDimensions transform\<rparr> of
             Inl e \<Rightarrow> Inl e
           | Inr allSources \<Rightarrow>
               (case map_throw
                       (map_throw (getTransformedSource getChunkTransformParameters makeGeometry transform))
                       allSources of
                  Inr sources \<Rightarrow>
                    Inr \<lparr>result_sources = sources, result_messages = messages', result_disposed = []\<rparr>
                | Inl e \<Rightarrow>
                    Inr (returnError messages' (map chunkSource (concat allSources))
                      (''Cannot render ('' @ dimensionDesc displayDimensionRenderInfo @
                       '') cross section: '' @ error_message e)))))"

text \<open>
  A render layer as \<open>SliceView\<close> sees it: its transform, its \<open>getSources\<close>, and its
  registration of visible sources.
\<close>

record ('m, 'x) RenderLayerObject =
  layerId :: nat
  layer_transform :: "'m RenderLayerTransformOrError"
  layer_getSources ::
    "'m SliceViewSourceOptions \<Rightarrow> js_error + 'm SliceViewSingleResolutionSource list list"
  layer_registration :: "(SliceViewChunkSource, 'x ChunkTransformParameters) SliceViewRenderLayer"

text \<open>\<open>SliceView.getTransformedSources\<close>: every transformed source is added to the layer.\<close>

definition getTransformedSources ::
  "(nat \<Rightarrow> 'm RenderLayerTransformOrError \<Rightarrow> 'm) \<Rightarrow>
   ('m RenderLayerTransformOrError \<Rightarrow> 'm \<Rightarrow> js_error + 'x ChunkTransformParameters) \<Rightarrow>
   ('m RenderLayerTransformOrError \<Rightarrow> 'm SliceViewSingleResolutionSource \<Rightarrow>
      'x ChunkTransformParameters \<Rightarrow> js_error + 'g) \<Rightarrow>
   DisplayDimensionRenderInfo \<Rightarrow> ('m, 'x) RenderLayerObject \<Rightarrow> MessageList \<Rightarrow>
   js_error + (('x, 'g) TransformedSourcesResult \<times> ('m, 'x) RenderLayerObject)" where
  "getTransformedSources viewTransform getChunkTransformParameters makeGeometry
     displayDimensionRenderInfo layer messages =
     (case getVolumetricTransformedSources viewTransform getChunkTransformParameters makeGeometry
             displayDimensionRenderInfo (layer_transform layer) (layer_getSources layer) messages of
        Inl e \<Rightarrow> Inl e
      | Inr r \<Rightarrow>
          Inr (r, layer\<lparr>layer_registration :=
                 foldl (\<lambda>reg tsource. addSource reg (ts_source tsource) (ts_chunkTransform tsource))
                   (layer_registration layer) (concat (result_sources r))\<rparr>))"

text \<open>
  \<open>updateVisibleLayersNow\<close> on a view that is not disposed, the loop over the ready
  render layers (distinct objects): each gets a new, empty message list; its entry
  (the \<open>layerInfo\<close> stored in \<open>visibleLayers\<close>) is appended to those of the layers before
  it. The bookkeeping that follows every entry one to one (the list of visible layers,
  the disposers, the message to the backend, the signals) is left out. An exception
  ends the loop.
\<close>

record ('m, 'x, 'g) VisibleLayerEntry =
  entry_layer :: "('m, 'x) RenderLayerObject"
  entry_info :: "('x, 'g) TransformedSourcesResult"

fun updateVisibleLayersNow ::
  "(nat \<Rightarrow> 'm RenderLayerTransformOrError \<Rightarrow> 'm) \<Rightarrow>
   ('m RenderLayerTransformOrError \<Rightarrow> 'm \<Rightarrow> js_error + 'x ChunkTransformParameters) \<Rightarrow>
   ('m RenderLayerTransformOrError \<Rightarrow> 'm SliceViewSingleResolutionSource \<Rightarrow>
      'x ChunkTransformParameters \<Rightarrow> js_error + 'g) \<Rightarrow>
   DisplayDimensionRenderInfo \<Rightarrow> ('m, 'x) RenderLayerObject list \<Rightarrow>
   ('m, 'x, 'g) VisibleLayerEntry list \<Rightarrow> js_error + ('m, 'x, 'g) VisibleLayerEntry list" where
  "updateVisibleLayersNow viewTransform getChunkTransformParameters makeGeometry info [] visibleLayers =
     Inr visibleLayers"
| "updateVisibleLayersNow viewTransform getChunkTransformParameters makeGeometry info
     (renderLayer # layers) visibleLayers =
     (case getTransformedSources viewTransform getChunkTransformParameters makeGeometry info
             renderLayer [] of
        Inl e \<Rightarrow> Inl e
      | Inr (r, renderLayer') \<Rightarrow>
          updateVisibleLayersNow viewTransform getChunkTransformParameters makeGeometry info layers
            (visibleLayers @ [\<lparr>entry_layer = renderLayer', entry_info = r\<rparr>]))"

text \<open>Example values, to run the functions above on concrete inputs.\<close>

definition exampleInfo :: DisplayDimensionRenderInfo where
  "exampleInfo = \<lparr>displayRank = 3, globalDimensionNames = [''x'', ''y'', ''z''],
     displayDimensionIndices = [0, 1, 2]\<rparr>"

definition exampleTransform :: "unit RenderLayerTransformOrError" where
  "exampleTransform = \<lparr>transform_error = None, rank = 4, unpaddedRank = 4,
     modelToRenderLayerTransform = (), channelToRenderLayerDimensions = [3],
     channelSpaceShape = [4], layerDimensionNames = [''x'', ''y'', ''z'', ''c'']\<rparr>"

definition exampleSource :: "unit SliceViewSingleResolutionSource" where
  "exampleSource = \<lparr>chunkSource = \<lparr>sourceId = 0, spec_chunkDataSize = [64, 64, 64, 3]\<rparr>,
     chunkToMultiscaleTransform = (), lowerClipBound = None, upperClipBound = None\<rparr>"

definition exampleChunkTransform :: "unit ChunkTransformParameters" where
  "exampleChunkTransform = \<lparr>channelToChunkDimensionIndices = [3], otherChunkTransformParameters = ()\<rparr>"

definition exampleLayer :: "unit RenderLayerTransformOrError \<Rightarrow> (unit, unit) RenderLayerObject" where
  "exampleLayer transform = \<lparr>layerId = 1, layer_transform = transform,
     layer_getSources = (\<lambda>options. Inr [[exampleSource]]),
     layer_registration = \<lparr>visibleSources = Map.empty, visibleSourcesList = []\<rparr>\<rparr>"

section \<open>The http request helper: fetching from the file tree\<close>













section \<open>sliceview/frontend.ts: fetching a chunk by its grid position\<close>

type_synonym GridPosition = "int list"

text \<open>
  A chunk of the frontend: its state (the number of a member of the enumeration
  \<open>ChunkState\<close>, whose declaration is not at hand; the number of \<open>SYSTEM_MEMORY\<close> is a
  parameter below), its grid position and its payload. The key of a chunk in the
  maps is its grid position (the code joins the coordinates into a string).
\<close>

record 'p Chunk =
  chunk_state :: nat
  chunkGridPosition :: GridPosition
  chunk_payload :: 'p

text \<open>The constructor of \<open>SliceViewChunk\<close>.\<close>

definition SliceViewChunk :: "nat \<Rightarrow> GridPosition \<Rightarrow> 'p \<Rightarrow> 'p Chunk" where
  "SliceViewChunk SYSTEM_MEMORY position payload =
     \<lparr>chunk_state = SYSTEM_MEMORY, chunkGridPosition = position, chunk_payload = payload\<rparr>"

datatype 'r outcome = Resolved 'r | Rejected

text \<open>
  One call of \<open>fetchChunk\<close> that went past the chunk map: the variables its closures
  capture, whether the awaited request has resolved, the value its requester has
  resolved \<open>promise\<close> with, and how the call ended. The requester of the call is
  identified by the index of this frame.
\<close>

record ('p, 'r) CallFrame =
  call_key :: GridPosition
  call_transform :: "'p Chunk \<Rightarrow> 'r"
  rpcSettled :: bool
  promiseValue :: "'r option"
  call_outcome :: "'r outcome option"

text \<open>
  The chunk source (\<open>addRef\<close> and \<open>dispose\<close> of its base class add and subtract one
  reference): its chunk map, \<open>chunkRequesters\<close> (\<open>None\<close> for \<^verbatim>\<open>undefined\<close>, else the
  map from keys to arrays of requesters, in insertion order), its reference count,
  the chunk requests sent to the backend, the frames of the calls, and the requesters
  that have been called, in the order of the calls.
\<close>

record ('p, 'r) SourceState =
  chunks :: "GridPosition \<rightharpoonup> 'p Chunk"
  chunkRequesters :: "(GridPosition \<times> nat list) list option"
  source_refCount :: int
  rpcRequests :: "GridPosition list"
  frames :: "('p, 'r) CallFrame list"
  requesterCalls :: "nat list"

text \<open>\<^verbatim>\<open>Map.set\<close> and \<^verbatim>\<open>Map.delete\<close> on the association list.\<close>

fun map_set :: "'k \<Rightarrow> 'v \<Rightarrow> ('k \<times> 'v) list \<Rightarrow> ('k \<times> 'v) list" where
  "map_set k v [] = [(k, v)]"
| "map_set k v (kv # rest) = (if fst kv = k then (k, v) # rest else kv # map_set k v rest)"

definition map_delete :: "'k \<Rightarrow> ('k \<times> 'v) list \<Rightarrow> ('k \<times> 'v) list" where
  "map_delete k m = filter (\<lambda>kv. fst kv \<noteq> k) m"

text \<open>\<^verbatim>\<open>Array.prototype.indexOf\<close> and \<^verbatim>\<open>splice(start, 1)\<close>; a negative start counts from the end.\<close>

fun indexOf_from :: "'a list \<Rightarrow> 'a \<Rightarrow> int \<Rightarrow> int" where
  "indexOf_from [] x i = - 1"
| "indexOf_from (y # ys) x i = (if y = x then i else indexOf_from ys x (i + 1))"

definition indexOf :: "'a list \<Rightarrow> 'a \<Rightarrow> int" where
  "indexOf xs x = indexOf_from xs x 0"

definition splice1 :: "'a list \<Rightarrow> int \<Rightarrow> 'a list" where
  "splice1 xs start =
     (let len = int (length xs);
          actualStart = nat (if start < 0 then max (len + start) 0 else min start len)
      in take actualStart xs @ drop (actualStart + 1) xs)"

text \<open>
  The map of requesters (empty when \<open>chunkRequesters\<close> is \<^verbatim>\<open>undefined\<close>) and the array
  registered under a key (empty when there is none).
\<close>

definition requestersMap :: "('p, 'r) SourceState \<Rightarrow> (GridPosition \<times> nat list) list" where
  "requestersMap this = (case chunkRequesters this of None \<Rightarrow> [] | Some m \<Rightarrow> m)"

definition entryOf :: "('p, 'r) SourceState \<Rightarrow> GridPosition \<Rightarrow> nat list" where
  "entryOf this key = (case map_of (requestersMap this) key of None \<Rightarrow> [] | Some e \<Rightarrow> e)"

text \<open>The part of \<open>fetchChunk\<close> after the look at the chunk map, up to its first \<^verbatim>\<open>await\<close>.\<close>

definition fetchChunk_request ::
  "('p, 'r) SourceState \<Rightarrow> GridPosition \<Rightarrow> ('p Chunk \<Rightarrow> 'r) \<Rightarrow> ('p, 'r) SourceState" where
  "fetchChunk_request this key transform =
     (let chunkRequesters' = requestersMap this;
          requester = length (frames this);
          entry = entryOf this key
      in this\<lparr>source_refCount := source_refCount this + 1,
              chunkRequesters := Some (map_set key (entry @ [requester]) chunkRequesters'),
              rpcRequests := rpcRequests this @ [key],
              frames := frames this @
                [\<lparr>call_key = key, call_transform = transform, rpcSettled = False,
                  promiseValue = None, call_outcome = None\<rparr>]\<rparr>)"

text \<open>
  \<open>fetchChunk\<close> up to its first \<^verbatim>\<open>await\<close>: the value it resolves with at once, or \<open>None\<close>
  when the call is left waiting.
\<close>

definition fetchChunk ::
  "nat \<Rightarrow> ('p, 'r) SourceState \<Rightarrow> GridPosition \<Rightarrow> ('p Chunk \<Rightarrow> 'r) \<Rightarrow>
   'r option \<times> ('p, 'r) SourceState" where
  "fetchChunk SYSTEM_MEMORY this chunkGridPosition' transform =
     (let key = chunkGridPosition' in
      case chunks this key of
        None \<Rightarrow> (None, fetchChunk_request this key transform)
      | Some existingChunk \<Rightarrow>
          if chunk_state existingChunk \<le> SYSTEM_MEMORY
          then (Some (transform existingChunk), this)
          else (None, fetchChunk_request this key transform))"

text \<open>
  The \<^verbatim>\<open>finally\<close> block of the call with frame \<open>requester\<close>. The map and the entry the
  call captured are the current ones as long as its requester is registered.
\<close>

definition fetchChunk_finally :: "nat \<Rightarrow> ('p, 'r) SourceState \<Rightarrow> ('p, 'r) SourceState" where
  "fetchChunk_finally requester this =
     (let key = call_key (frames this ! requester);
          chunkRequesters' = requestersMap this;
          entry = entryOf this key;
          entry' = splice1 entry (indexOf entry requester);
          chunkRequesters'' = (if length entry' = 0 then map_delete key chunkRequesters'
                               else map_set key entry' chunkRequesters')
      in this\<lparr>chunkRequesters := (if length chunkRequesters'' = 0 then None else Some chunkRequesters''),
              source_refCount := source_refCount this - 1\<rparr>)"

definition setFrame ::
  "nat \<Rightarrow> (('p, 'r) CallFrame \<Rightarrow> ('p, 'r) CallFrame) \<Rightarrow> ('p, 'r) SourceState \<Rightarrow> ('p, 'r) SourceState" where
  "setFrame requester f this = this\<lparr>frames := (frames this)[requester := f (frames this ! requester)]\<rparr>"

text \<open>
  The requester of a call, \<^verbatim>\<open>(chunk) => resolve(transform(chunk))\<close>: it settles \<open>promise\<close>
  the first time it is called. Every call of a requester is recorded.
\<close>

definition invokeRequester :: "'p Chunk \<Rightarrow> ('p, 'r) SourceState \<Rightarrow> nat \<Rightarrow> ('p, 'r) SourceState" where
  "invokeRequester chunk this requester =
     (let called = this\<lparr>requesterCalls := requesterCalls this @ [requester]\<rparr>
      in if requester < length (frames this) \<and> promiseValue (frames this ! requester) = None
         then setFrame requester
                (\<lambda>frame. frame\<lparr>promiseValue := Some (call_transform frame chunk)\<rparr>) called
         else called)"

text \<open>
  \<^verbatim>\<open>return await promise\<close>: once the request has resolved and \<open>promise\<close> is settled, the
  call runs its \<^verbatim>\<open>finally\<close> block and resolves with the value of \<open>promise\<close>.
\<close>

definition resumeCall :: "('p, 'r) SourceState \<Rightarrow> nat \<Rightarrow> ('p, 'r) SourceState" where
  "resumeCall this requester =
     (if requester < length (frames this) \<and> rpcSettled (frames this ! requester)
         \<and> call_outcome (frames this ! requester) = None
      then (case promiseValue (frames this ! requester) of
              None \<Rightarrow> this
            | Some v \<Rightarrow>
                setFrame requester (\<lambda>frame. frame\<lparr>call_outcome := Some (Resolved v)\<rparr>)
                  (fetchChunk_finally requester this))
      else this)"

text \<open>The awaited chunk request of a call resolves, or is rejected (cancelled).\<close>

definition rpcResolved :: "nat \<Rightarrow> ('p, 'r) SourceState \<Rightarrow> ('p, 'r) SourceState" where
  "rpcResolved requester this =
     (if requester < length (frames this) \<and> \<not> rpcSettled (frames this ! requester)
         \<and> call_outcome (frames this ! requester) = None
      then resumeCall (setFrame requester (\<lambda>frame. frame\<lparr>rpcSettled := True\<rparr>) this) requester
      else this)"

definition rpcRejected :: "nat \<Rightarrow> ('p, 'r) SourceState \<Rightarrow> ('p, 'r) SourceState" where
  "rpcRejected requester this =
     (if requester < length (frames this) \<and> \<not> rpcSettled (frames this ! requester)
         \<and> call_outcome (frames this ! requester) = None
      then setFrame requester (\<lambda>frame. frame\<lparr>rpcSettled := True, call_outcome := Some Rejected\<rparr>)
             (fetchChunk_finally requester this)
      else this)"

text \<open>
  Modelled from the spec: the delivery of a chunk to the source, which belongs to the
  chunk manager of the frontend (chunk_manager/frontend.ts, not at hand). By the spec
  a request resolves once the chunk has reached system memory, and the waiters of a
  position are notified in the order they registered: the chunk enters the chunk map
  as the constructor above builds it, the requesters registered for its key are called
  in order, and the calls whose \<open>promise\<close> is settled thereby resume in that order.
\<close>

definition chunkArrives ::
  "nat \<Rightarrow> GridPosition \<Rightarrow> 'p \<Rightarrow> ('p, 'r) SourceState \<Rightarrow> ('p, 'r) SourceState" where
  "chunkArrives SYSTEM_MEMORY key payload this =
     (let chunk = SliceViewChunk SYSTEM_MEMORY key payload;
          requesters = entryOf this key;
          notified = foldl (invokeRequester chunk) (this\<lparr>chunks := (chunks this)(key \<mapsto> chunk)\<rparr>) requesters
      in foldl resumeCall notified requesters)"

datatype ('p, 'r) event =
    FetchChunk GridPosition "'p Chunk \<Rightarrow> 'r"
  | RpcResolved nat
  | RpcRejected nat
  | ChunkArrives GridPosition 'p

fun step :: "nat \<Rightarrow> ('p, 'r) SourceState \<Rightarrow> ('p, 'r) event \<Rightarrow> ('p, 'r) SourceState" where
  "step SYSTEM_MEMORY this (FetchChunk position transform) =
     snd (fetchChunk SYSTEM_MEMORY this position transform)"
| "step SYSTEM_MEMORY this (RpcResolved requester) = rpcResolved requester this"
| "step SYSTEM_MEMORY this (RpcRejected requester) = rpcRejected requester this"
| "step SYSTEM_MEMORY this (ChunkArrives key payload) = chunkArrives SYSTEM_MEMORY key payload this"

definition run :: "nat \<Rightarrow> ('p, 'r) SourceState \<Rightarrow> ('p, 'r) event list \<Rightarrow> ('p, 'r) SourceState" where
  "run SYSTEM_MEMORY this events = foldl (step SYSTEM_MEMORY) this events"

text \<open>
  In a well-formed state every registered requester is the frame of a call for the key
  it is registered under.
\<close>

definition wellFormed :: "('p, 'r) SourceState \<Rightarrow> bool" where
  "wellFormed this \<longleftrightarrow>
     (\<forall>(key, entry) \<in> set (requestersMap this).
        \<forall>requester \<in> set entry.
          requester < length (frames this) \<and> call_key (frames this ! requester) = key)"

definition initialSource :: "('p, 'r) SourceState" where
  "initialSource = \<lparr>chunks = Map.empty, chunkRequesters = None, source_refCount = 1,
     rpcRequests = [], frames = [], requesterCalls = []\<rparr>"

text \<open>
  The invariant of the frame of one call for \<open>pos\<close> with \<open>tr\<close>: its \<open>promise\<close> is settled
  only with a value of the set \<open>V\<close>, and the call resolves only with the value of its
  \<open>promise\<close>.
\<close>

definition frameInvariant ::
  "GridPosition \<Rightarrow> ('p Chunk \<Rightarrow> 'r) \<Rightarrow> 'r set \<Rightarrow> ('p, 'r) CallFrame \<Rightarrow> bool" where
  "frameInvariant pos tr V fr \<longleftrightarrow>
     call_key fr = pos \<and> call_transform fr = tr
     \<and> (\<forall>v. promiseValue fr = Some v \<longrightarrow> v \<in> V)
     \<and> (\<forall>v. call_outcome fr = Some (Resolved v) \<longrightarrow> promiseValue fr = Some v)"

text \<open>The frame of a call that has just been left waiting.\<close>

definition newFrame :: "GridPosition \<Rightarrow> ('p Chunk \<Rightarrow> 'r) \<Rightarrow> ('p, 'r) CallFrame" where
  "newFrame key tr = \<lparr>call_key = key, call_transform = tr, rpcSettled = False,
     promiseValue = None, call_outcome = None\<rparr>"





text \<open>Example values for traces of calls.\<close>

definition exampleKey :: GridPosition where
  "exampleKey = [0, 0, 0]"

definition payloadPlus :: "nat \<Rightarrow> nat Chunk \<Rightarrow> nat" where
  "payloadPlus n chunk = chunk_payload chunk + n"

section \<open>Properties of the prefix completions\<close>

lemma getPrefixMatches_loop_eq:
  "getPrefixMatches_loop prefix options result =
     result @ map (\<lambda>option. \<lparr>cvalue = option\<rparr>) (filter (\<lambda>option. startsWith option prefix) options)"
  by (induction options arbitrary: result) simp_all

lemma getPrefixMatchesWithDescriptions_loop_eq:
  "getPrefixMatchesWithDescriptions_loop prefix options getValue getDescription result =
     result @ map (\<lambda>option. \<lparr>cvalue = getValue option, description = getDescription option\<rparr>)
                (filter (\<lambda>option. startsWith (getValue option) prefix) options)"
  by (induction options arbitrary: result) (simp_all add: Let_def)

lemma mset_sort_insert: "mset (sort_insert compareFn x ys) = add_mset x (mset ys)"
  by (induction ys) simp_all

lemma mset_array_sort: "mset (array_sort compareFn xs) = mset xs"
  by (induction xs) (simp_all add: array_sort_def mset_sort_insert)

lemma set_sort_insert: "set (sort_insert compareFn x ys) = insert x (set ys)"
  by (induction ys) auto

lemma sorted_sort_insert:
  assumes "consistent_comparator compareFn"
    and "sorted_wrt (\<lambda>a b. compareFn a b \<le> 0) ys"
  shows "sorted_wrt (\<lambda>a b. compareFn a b \<le> 0) (sort_insert compareFn x ys)"
  using assms(2)
proof (induction ys)
  case Nil
  then show ?case by simp
next
  case (Cons y ys)
  have total: "\<And>a b. compareFn a b \<le> 0 \<or> compareFn b a \<le> 0"
    and trans: "\<And>a b c. compareFn a b \<le> 0 \<Longrightarrow> compareFn b c \<le> 0 \<Longrightarrow> compareFn a c \<le> 0"
    using assms(1) unfolding consistent_comparator_def by blast+
  show ?case
  proof (cases "compareFn x y \<le> 0")
    case True
    then have "\<forall>z\<in>set ys. compareFn x z \<le> 0"
      using Cons.prems trans by auto
    with True Cons.prems show ?thesis by simp
  next
    case False
    then have "compareFn y x \<le> 0" using total by blast
    with False Cons show ?thesis
      by (auto simp: set_sort_insert)
  qed
qed

lemma sorted_array_sort:
  assumes "consistent_comparator compareFn"
  shows "sorted_wrt (\<lambda>a b. compareFn a b \<le> 0) (array_sort compareFn xs)"
proof (induction xs)
  case Nil
  then show ?case by (simp add: array_sort_def)
next
  case (Cons x xs)
  then show ?case
    using sorted_sort_insert [OF assms, of "array_sort compareFn xs" x]
    by (simp add: array_sort_def)
qed

lemma consistent_comparator_on_field:
  "consistent_comparator compareFn \<Longrightarrow> consistent_comparator (\<lambda>a b. compareFn (f a) (f b))"
  unfolding consistent_comparator_def by blast

text \<open>
  Claim C10. For every prefix and every finite sequence of options, \<open>getPrefixMatches\<close>
  returns exactly one completion for each option that starts with the prefix (as a
  multiset: an option listed twice is completed twice) and none for any other option,
  and so does \<open>getPrefixMatchesWithDescriptions\<close> on the extracted keys, each with its
  description; both results are sorted by the comparator on the completion value,
  for a consistent comparator.
\<close>

theorem getPrefixMatches_complete_sorted:
  assumes "consistent_comparator defaultStringCompare"
  shows "mset (getPrefixMatches defaultStringCompare prefix options) =
           mset (map (\<lambda>option. \<lparr>cvalue = option\<rparr>)
                  (filter (\<lambda>option. startsWith option prefix) options))
       \<and> sorted_wrt (\<lambda>a b. defaultStringCompare (cvalue a) (cvalue b) \<le> 0)
           (getPrefixMatches defaultStringCompare prefix options)
       \<and> mset (getPrefixMatchesWithDescriptions defaultStringCompare prefix opts getValue getDescription) =
           mset (map (\<lambda>option. \<lparr>cvalue = getValue option, description = getDescription option\<rparr>)
                  (filter (\<lambda>option. startsWith (getValue option) prefix) opts))
       \<and> sorted_wrt (\<lambda>a b. defaultStringCompare (cvalue a) (cvalue b) \<le> 0)
           (getPrefixMatchesWithDescriptions defaultStringCompare prefix opts getValue getDescription)"
proof -
  have c1: "consistent_comparator (\<lambda>a b :: Completion. defaultStringCompare (cvalue a) (cvalue b))"
    using assms by (rule consistent_comparator_on_field)
  have c2: "consistent_comparator
              (\<lambda>a b :: CompletionWithDescription. defaultStringCompare (cvalue a) (cvalue b))"
    using assms by (rule consistent_comparator_on_field)
  show ?thesis
    unfolding getPrefixMatches_def getPrefixMatchesWithDescriptions_def
    using sorted_array_sort [OF c1] sorted_array_sort [OF c2]
    by (simp add: mset_array_sort getPrefixMatches_loop_eq getPrefixMatchesWithDescriptions_loop_eq)
qed

lemma consistent_codeUnitCompare: "consistent_comparator codeUnitCompare"
  unfolding consistent_comparator_def codeUnitCompare_def by auto

theorem getPrefixMatches_complete_sorted_witness:
  "consistent_comparator codeUnitCompare
   \<and> mset (getPrefixMatches codeUnitCompare ''ab'' [''abd'', ''b'', ''abc'', ''a'']) =
       mset [\<lparr>cvalue = ''abd''\<rparr>, \<lparr>cvalue = ''abc''\<rparr>]
   \<and> sorted_wrt (\<lambda>a b. codeUnitCompare (cvalue a) (cvalue b) \<le> 0)
       (getPrefixMatches codeUnitCompare ''ab'' [''abd'', ''b'', ''abc'', ''a''])
   \<and> getPrefixMatches codeUnitCompare ''ab'' [''abd'', ''b'', ''abc'', ''a''] =
       [\<lparr>cvalue = ''abc''\<rparr>, \<lparr>cvalue = ''abd''\<rparr>]
   \<and> getPrefixMatchesWithDescriptions codeUnitCompare ''z'' [(''zb'', 1::nat), (''y'', 2), (''za'', 3)]
         fst (\<lambda>x. if snd x = 1 then None else Some ''d'') =
       [\<lparr>cvalue = ''za'', description = Some ''d''\<rparr>, \<lparr>cvalue = ''zb'', description = None\<rparr>]"
  using getPrefixMatches_complete_sorted [OF consistent_codeUnitCompare,
      of "''ab''" "[''abd'', ''b'', ''abc'', ''a'']"]
  by (simp add: consistent_codeUnitCompare getPrefixMatches_def getPrefixMatchesWithDescriptions_def
      array_sort_def codeUnitCompare_def)

section \<open>Properties of the retry delay\<close>

lemma baseDelay_eq: "min (2 ^ n * minDelayMilliseconds) (maxDelayMilliseconds / 2) = baseDelay n"
  by (simp add: baseDelay_def minDelayMilliseconds_def maxDelayMilliseconds_def)

lemma baseDelay_Suc: "baseDelay (Suc n) = min (2 * baseDelay n) 5000"
proof (cases "(2::real) ^ n * 500 \<le> 5000")
  case True
  then show ?thesis by (simp add: baseDelay_def)
next
  case False
  then have "5000 < (2::real) ^ n * 500" by simp
  then show ?thesis by (simp add: baseDelay_def)
qed

lemma baseDelay_int: "baseDelay n = of_int (min (2 ^ n * 500) 5000)"
  by (simp add: baseDelay_def of_int_min)

lemma baseDelay_range: "500 \<le> baseDelay n \<and> baseDelay n \<le> 5000"
proof -
  have "(1::real) \<le> 2 ^ n" by simp
  then show ?thesis by (simp add: baseDelay_def)
qed

lemma round_half_even_lower: "of_int z \<le> x \<Longrightarrow> z \<le> round_half_even x"
proof -
  assume "of_int z \<le> x"
  then have "z \<le> \<lfloor>x\<rfloor>" by (simp add: le_floor_iff)
  then show ?thesis by (simp add: round_half_even_def Let_def)
qed

lemma round_half_even_upper: "x \<le> of_int z \<Longrightarrow> round_half_even x \<le> z"
proof -
  assume le: "x \<le> of_int z"
  show ?thesis
  proof (cases "x = of_int z")
    case True
    then show ?thesis by (simp add: round_half_even_def Let_def)
  next
    case False
    with le have "x < of_int z" by simp
    then have "\<lfloor>x\<rfloor> < z" by (simp add: floor_less_iff)
    then show ?thesis by (simp add: round_half_even_def Let_def)
  qed
qed

lemma double_round_unit:
  assumes "1 \<le> x" and "x < 2 ^ 52"
  obtains k :: nat where "double_round x = of_int (round_half_even (x * 2 ^ k)) / 2 ^ k"
proof -
  define e where "e = \<lfloor>log 2 x\<rfloor>"
  have x0: "0 < x" using assms(1) by simp
  have "0 \<le> log 2 x" using assms(1) by simp
  then have e0: "0 \<le> e" by (simp add: e_def)
  have "log 2 x < 52"
    using assms(2) x0 by (simp add: log_less_iff powr_realpow [symmetric] del: powr_realpow)
  then have e51: "e < 52" by (simp add: e_def floor_less_iff)
  define k where "k = nat (52 - e)"
  have "of_int e - (52::real) = - real k" using e0 e51 by (simp add: k_def)
  then have ulp: "(2::real) powr (of_int e - 52) = 1 / 2 ^ k"
    by (simp add: powr_minus powr_realpow inverse_eq_divide)
  have "double_round x = of_int (round_half_even (x * 2 ^ k)) / 2 ^ k"
    using x0 by (simp add: double_round_def Let_def e_def [symmetric] ulp)
  then show ?thesis by (rule that)
qed

lemma double_round_lower:
  assumes "1 \<le> x" and "x < 2 ^ 52" and "of_int a \<le> x"
  shows "of_int a \<le> double_round x"
proof -
  from double_round_unit [OF assms(1,2)] obtain k :: nat
    where k: "double_round x = of_int (round_half_even (x * 2 ^ k)) / 2 ^ k" .
  have "of_int (a * 2 ^ k) \<le> x * 2 ^ k" using assms(3) by simp
  then have "a * 2 ^ k \<le> round_half_even (x * 2 ^ k)" by (rule round_half_even_lower)
  then have "of_int (a * 2 ^ k) \<le> (of_int (round_half_even (x * 2 ^ k)) :: real)"
    by (simp only: of_int_le_iff)
  then show ?thesis by (simp add: k pos_le_divide_eq)
qed

lemma double_round_upper:
  assumes "1 \<le> x" and "x < 2 ^ 52" and "x \<le> of_int b"
  shows "double_round x \<le> of_int b"
proof -
  from double_round_unit [OF assms(1,2)] obtain k :: nat
    where k: "double_round x = of_int (round_half_even (x * 2 ^ k)) / 2 ^ k" .
  have "x * 2 ^ k \<le> of_int (b * 2 ^ k)" using assms(3) by simp
  then have "round_half_even (x * 2 ^ k) \<le> b * 2 ^ k" by (rule round_half_even_upper)
  then have "(of_int (round_half_even (x * 2 ^ k)) :: real) \<le> of_int (b * 2 ^ k)"
    by (simp only: of_int_le_iff)
  then show ?thesis by (simp add: k pos_divide_le_eq)
qed

lemma double_round_one_plus:
  assumes "0 \<le> r" and "r < 1"
  shows "1 \<le> double_round (1 + r) \<and> double_round (1 + r) \<le> 2"
  using double_round_lower [of "1 + r" 1] double_round_upper [of "1 + r" 2] assms
  by simp

text \<open>
  Claim C6, as the code has it. For every attempt number \<open>n\<close> and every random draw \<open>r\<close>
  in \<open>[0, 1)\<close>, \<open>pickDelay n\<close> is \<open>min (2^n * 500) 5000\<close> times \<open>1 + r\<close>, both operations
  rounded to doubles; it lies between the base delay and twice the base delay, both
  ends included, so it is the base delay times \<open>1 + r'\<close> for some \<open>r'\<close> in \<open>[0, 1]\<close>; the base
  delay doubles from one attempt to the next until it is capped at 5000; and every
  delay is at most 10000 milliseconds.
\<close>

theorem pickDelay_bounds:
  assumes "0 \<le> r" and "r < 1"
  shows "pickDelay n r = double_round (min (2 ^ n * 500) 5000 * double_round (1 + r))
       \<and> baseDelay n \<le> pickDelay n r \<and> pickDelay n r \<le> 2 * baseDelay n
       \<and> (\<exists>r'. 0 \<le> r' \<and> r' \<le> 1 \<and> pickDelay n r = baseDelay n * (1 + r'))
       \<and> baseDelay (Suc n) = min (2 * baseDelay n) 5000
       \<and> pickDelay n r \<le> 10000"
proof -
  define s where "s = double_round (1 + r)"
  have s: "1 \<le> s" "s \<le> 2"
    using double_round_one_plus [OF assms] by (simp_all add: s_def)
  have b: "500 \<le> baseDelay n" "baseDelay n \<le> 5000"
    using baseDelay_range [of n] by simp_all
  have eq: "pickDelay n r = double_round (baseDelay n * s)"
    by (simp add: pickDelay_def baseDelay_eq s_def)
  have pos: "0 \<le> baseDelay n" using b(1) by simp
  have "baseDelay n * 1 \<le> baseDelay n * s" using s(1) pos by (rule mult_left_mono)
  then have lo': "baseDelay n \<le> baseDelay n * s" by simp
  have "baseDelay n * s \<le> baseDelay n * 2" using s(2) pos by (rule mult_left_mono)
  then have hi': "baseDelay n * s \<le> 2 * baseDelay n" by simp
  have one: "1 \<le> baseDelay n * s" using lo' b(1) by linarith
  have big: "baseDelay n * s < 2 ^ 52" using hi' b(2) by simp
  have lo: "baseDelay n \<le> pickDelay n r"
    using double_round_lower [OF one big, of "min (2 ^ n * 500) 5000"] lo'
    by (simp add: eq baseDelay_int)
  have hi: "pickDelay n r \<le> 2 * baseDelay n"
    using double_round_upper [OF one big, of "2 * min (2 ^ n * 500) 5000"] hi'
    by (simp add: eq baseDelay_int)
  have ex: "\<exists>r'. 0 \<le> r' \<and> r' \<le> 1 \<and> pickDelay n r = baseDelay n * (1 + r')"
  proof (intro exI [of _ "pickDelay n r / baseDelay n - 1"] conjI)
    show "0 \<le> pickDelay n r / baseDelay n - 1" using lo b(1) by (simp add: pos_le_divide_eq)
    show "pickDelay n r / baseDelay n - 1 \<le> 1" using hi b(1) by (simp add: pos_divide_le_eq)
    show "pickDelay n r = baseDelay n * (1 + (pickDelay n r / baseDelay n - 1))"
      using b(1) by simp
  qed
  have form: "pickDelay n r = double_round (min (2 ^ n * 500) 5000 * double_round (1 + r))"
    using eq by (simp add: baseDelay_def s_def)
  have cap: "pickDelay n r \<le> 10000" using hi b(2) by simp
  show ?thesis
    using form lo hi ex cap baseDelay_Suc [of n] by blast
qed


lemma double_round_of_int:
  assumes "1 \<le> a" and "a < 2 ^ 52"
  shows "double_round (of_int a) = of_int a"
proof -
  have 1: "(1::real) \<le> of_int a" using assms(1) by simp
  have "(of_int a :: real) < of_int (2 ^ 52)" using assms(2) by (simp only: of_int_less_iff)
  then have 2: "(of_int a :: real) < 2 ^ 52" by simp
  show ?thesis
    using double_round_lower [OF 1 2, of a] double_round_upper [OF 1 2, of a] by simp
qed

lemma double_round_below_two: "double_round (2 - 1 / 2 ^ 53) = 2"
proof -
  define x :: real where "x = 2 - 1 / 2 ^ 53"
  define u :: real where "u = 2 powr (of_int \<lfloor>log 2 \<bar>x\<bar>\<rfloor> - 52)"
  have pos: "0 < x" and ne: "x \<noteq> 0" and ab: "\<bar>x\<bar> = x" and sg: "sgn x = 1"
    by (simp_all add: x_def)
  have "\<lfloor>log 2 x\<rfloor> = 0"
    unfolding x_def by (subst floor_log_eq_powr_iff) simp_all
  then have "u = 2 powr (- 52)" by (simp add: u_def ab)
  also have "\<dots> = 1 / 2 ^ 52"
    using powr_realpow [of "2::real" 52] by (simp add: powr_minus inverse_eq_divide)
  finally have u: "u = 1 / 2 ^ 52" .
  have q: "x / u = 9007199254740992 - 1 / 2" by (simp add: x_def u)
  have "\<lfloor>9007199254740992 - 1 / 2 :: real\<rfloor> = 9007199254740991"
    by (rule floor_unique) simp_all
  then have r: "round_half_even (x / u) = 9007199254740992"
    unfolding q by (simp add: round_half_even_def Let_def)
  have "double_round x = sgn x * u * of_int (round_half_even (\<bar>x\<bar> / u))"
    using ne by (simp add: double_round_def Let_def u_def)
  also have "\<dots> = 2" unfolding ab sg r by (simp add: u)
  finally show ?thesis by (simp add: x_def)
qed

theorem pickDelay_bounds_witness:
  "(0::real) \<le> 1 / 2 \<and> (1 / 2 :: real) < 1
   \<and> baseDelay 2 = 2000
   \<and> baseDelay 2 \<le> pickDelay 2 (1 / 2) \<and> pickDelay 2 (1 / 2) \<le> 2 * baseDelay 2
   \<and> pickDelay 2 (1 / 2) \<le> 10000
   \<and> pickDelay 2 0 = 2000"
proof -
  have one: "double_round 1 = 1" using double_round_of_int [of 1] by simp
  have "double_round 2000 = 2000" using double_round_of_int [of 2000] by simp
  then have v: "pickDelay 2 0 = 2000"
    by (simp add: pickDelay_def minDelayMilliseconds_def maxDelayMilliseconds_def one)
  show ?thesis
    using pickDelay_bounds [of "1 / 2" 2] v by (simp add: baseDelay_def)
qed

text \<open>
  Claim C6 as it is stated does not hold: for the draw \<open>1 - 2^-53\<close>, a double below 1,
  the sum \<open>1 + r\<close> rounds to 2 and the delay of attempt 4 is 10000, not below it.
\<close>

theorem pickDelay_strict_counterexample:
  "(0::real) \<le> 1 - 1 / 2 ^ 53 \<and> (1 - 1 / 2 ^ 53 :: real) < 1
   \<and> pickDelay 4 (1 - 1 / 2 ^ 53) = 10000
   \<and> \<not> pickDelay 4 (1 - 1 / 2 ^ 53) < 10000"
proof -
  have s: "double_round (1 + (1 - 1 / 2 ^ 53)) = 2"
    using double_round_below_two by (simp add: algebra_simps)
  have "double_round 10000 = 10000" using double_round_of_int [of 10000] by simp
  then have "pickDelay 4 (1 - 1 / 2 ^ 53) = 10000"
    unfolding pickDelay_def s
    by (simp add: minDelayMilliseconds_def maxDelayMilliseconds_def)
  then show ?thesis by simp
qed

section \<open>Properties of the visible-source registration\<close>

lemma addSource_other:
  "s' \<noteq> s \<Longrightarrow> visibleSources (addSource this s ct) s' = visibleSources this s'"
  by (simp add: addSource_def split: option.splits)

lemma removeSource_other:
  "removeSource this s = Inr this' \<Longrightarrow> s' \<noteq> s \<Longrightarrow> visibleSources this' s' = visibleSources this s'"
  by (auto simp: removeSource_def split: option.splits if_splits)

lemma addSource_removeSource_entries:
  "(visibleSources this s = Some info \<longrightarrow>
      addSource this s ct = this\<lparr>visibleSources := (visibleSources this)
         (s \<mapsto> info\<lparr>refCount := refCount info + 1, chunkTransform := ct\<rparr>)\<rparr>)
   \<and> (visibleSources this s = None \<longrightarrow>
      addSource this s ct = this\<lparr>visibleSources := (visibleSources this)
         (s \<mapsto> \<lparr>source = s, refCount = 1, chunkTransform = ct\<rparr>), visibleSourcesList := []\<rparr>)
   \<and> (visibleSources this s = Some info \<and> refCount info \<noteq> 1 \<longrightarrow>
      removeSource this s = Inr (this\<lparr>visibleSources := (visibleSources this)
         (s \<mapsto> info\<lparr>refCount := refCount info - 1\<rparr>)\<rparr>))
   \<and> (visibleSources this s = Some info \<and> refCount info = 1 \<longrightarrow>
      (\<exists>this'. removeSource this s = Inr this' \<and> visibleSources this' s = None
         \<and> s \<notin> dom (visibleSources this') \<and> visibleSourcesList this' = []
         \<and> (\<forall>s'. s' \<noteq> s \<longrightarrow> visibleSources this' s' = visibleSources this s')))"
  by (simp add: addSource_def removeSource_def)

lemma addSource_removeSource_entries_example:
  "addSource \<lparr>visibleSources = Map.empty, visibleSourcesList = [5]\<rparr> (7::nat) ''t0''
     = \<lparr>visibleSources = [7 \<mapsto> \<lparr>source = 7, refCount = 1, chunkTransform = ''t0''\<rparr>],
        visibleSourcesList = []\<rparr>
   \<and> addSource \<lparr>visibleSources = [7 \<mapsto> \<lparr>source = 7::nat, refCount = 1, chunkTransform = ''t0''\<rparr>],
        visibleSourcesList = [7]\<rparr> 7 ''t1''
     = \<lparr>visibleSources = [7 \<mapsto> \<lparr>source = 7, refCount = 2, chunkTransform = ''t1''\<rparr>],
        visibleSourcesList = [7]\<rparr>
   \<and> removeSource \<lparr>visibleSources = [7 \<mapsto> \<lparr>source = 7::nat, refCount = 2, chunkTransform = ''t1''\<rparr>],
        visibleSourcesList = [7]\<rparr> 7
     = Inr \<lparr>visibleSources = [7 \<mapsto> \<lparr>source = 7, refCount = 1, chunkTransform = ''t1''\<rparr>],
        visibleSourcesList = [7]\<rparr>
   \<and> removeSource \<lparr>visibleSources = [7 \<mapsto> \<lparr>source = 7::nat, refCount = 1, chunkTransform = ''t1''\<rparr>],
        visibleSourcesList = [7]\<rparr> 7
     = Inr \<lparr>visibleSources = Map.empty, visibleSourcesList = []\<rparr>"
proof -
  have a: "addSource \<lparr>visibleSources = Map.empty, visibleSourcesList = [5]\<rparr> (7::nat) ''t0''
     = \<lparr>visibleSources = [7 \<mapsto> \<lparr>source = 7, refCount = 1, chunkTransform = ''t0''\<rparr>],
        visibleSourcesList = []\<rparr>"
    using addSource_removeSource_entries
      [of "\<lparr>visibleSources = Map.empty, visibleSourcesList = [5]\<rparr>" "7::nat" undefined "''t0''"]
    by simp
  have b: "addSource \<lparr>visibleSources = [7 \<mapsto> \<lparr>source = 7::nat, refCount = 1, chunkTransform = ''t0''\<rparr>],
        visibleSourcesList = [7]\<rparr> 7 ''t1''
     = \<lparr>visibleSources = [7 \<mapsto> \<lparr>source = 7, refCount = 2, chunkTransform = ''t1''\<rparr>],
        visibleSourcesList = [7]\<rparr>"
    using addSource_removeSource_entries
      [of "\<lparr>visibleSources = [7 \<mapsto> \<lparr>source = 7::nat, refCount = 1, chunkTransform = ''t0''\<rparr>],
            visibleSourcesList = [7]\<rparr>" 7 "\<lparr>source = 7::nat, refCount = 1, chunkTransform = ''t0''\<rparr>" "''t1''"]
    by simp
  have c: "removeSource \<lparr>visibleSources = [7 \<mapsto> \<lparr>source = 7::nat, refCount = 2, chunkTransform = ''t1''\<rparr>],
        visibleSourcesList = [7]\<rparr> 7
     = Inr \<lparr>visibleSources = [7 \<mapsto> \<lparr>source = 7, refCount = 1, chunkTransform = ''t1''\<rparr>],
        visibleSourcesList = [7]\<rparr>"
    using addSource_removeSource_entries
      [of "\<lparr>visibleSources = [7 \<mapsto> \<lparr>source = 7::nat, refCount = 2, chunkTransform = ''t1''\<rparr>],
            visibleSourcesList = [7]\<rparr>" 7 "\<lparr>source = 7::nat, refCount = 2, chunkTransform = ''t1''\<rparr>" "''t1''"]
    by simp
  have "\<exists>this'. removeSource \<lparr>visibleSources = [7 \<mapsto> \<lparr>source = 7::nat, refCount = 1, chunkTransform = ''t1''\<rparr>],
        visibleSourcesList = [7]\<rparr> 7 = Inr this' \<and> visibleSources this' 7 = None"
    using addSource_removeSource_entries
      [of "\<lparr>visibleSources = [7 \<mapsto> \<lparr>source = 7::nat, refCount = 1, chunkTransform = ''t1''\<rparr>],
            visibleSourcesList = [7]\<rparr>" 7 "\<lparr>source = 7::nat, refCount = 1, chunkTransform = ''t1''\<rparr>" "''t1''"]
    by auto
  then have d: "removeSource \<lparr>visibleSources = [7 \<mapsto> \<lparr>source = 7::nat, refCount = 1, chunkTransform = ''t1''\<rparr>],
        visibleSourcesList = [7]\<rparr> 7
     = Inr \<lparr>visibleSources = Map.empty, visibleSourcesList = []\<rparr>"
    by (simp add: removeSource_def)
  from a b c d show ?thesis by simp
qed

text \<open>
  Claim C7, as the code has it. \<open>addSource\<close> on a registered source adds one to its
  \<open>refCount\<close> and replaces its chunk transform; on a new source it inserts an entry with
  \<open>refCount\<close> 1. \<open>removeSource\<close> subtracts one from a \<open>refCount\<close> other than 1, and at
  \<open>refCount\<close> 1 (the call that would bring it to zero) it deletes the entry and truncates
  the cached list within the same call. Neither call releases a reference to the
  source: the reference count of every source object is what it was before the call.
\<close>

theorem addSource_removeSource_store:
  "(visibleSources (store_layer store) s = Some info \<longrightarrow>
      store_layer (addSource_call store s ct) =
        (store_layer store)\<lparr>visibleSources := (visibleSources (store_layer store))
           (s \<mapsto> info\<lparr>refCount := refCount info + 1, chunkTransform := ct\<rparr>)\<rparr>)
   \<and> (visibleSources (store_layer store) s = None \<longrightarrow>
      store_layer (addSource_call store s ct) =
        (store_layer store)\<lparr>visibleSources := (visibleSources (store_layer store))
           (s \<mapsto> \<lparr>source = s, refCount = 1, chunkTransform = ct\<rparr>), visibleSourcesList := []\<rparr>)
   \<and> sourceReferences (addSource_call store s ct) = sourceReferences store
   \<and> (visibleSources (store_layer store) s = Some info \<and> refCount info \<noteq> 1 \<longrightarrow>
      removeSource_call store s =
        Inr (store\<lparr>store_layer := (store_layer store)\<lparr>visibleSources :=
               (visibleSources (store_layer store))(s \<mapsto> info\<lparr>refCount := refCount info - 1\<rparr>)\<rparr>\<rparr>))
   \<and> (visibleSources (store_layer store) s = Some info \<and> refCount info = 1 \<longrightarrow>
      removeSource_call store s =
        Inr (store\<lparr>store_layer := (store_layer store)\<lparr>visibleSources :=
               (visibleSources (store_layer store))(s := None), visibleSourcesList := []\<rparr>\<rparr>))
   \<and> (\<forall>store'. removeSource_call store s = Inr store' \<longrightarrow>
         sourceReferences store' = sourceReferences store
         \<and> sourceReferences store' s \<noteq> sourceReferences (dispose store s) s)"
  by (auto simp: addSource_call_def removeSource_call_def addSource_def removeSource_def dispose_def
      split: option.splits if_splits)

theorem addSource_removeSource_store_witness:
  "visibleSources (store_layer exampleStore) 7 = Some \<lparr>source = 7, refCount = 1, chunkTransform = ''t1''\<rparr>
   \<and> refCount \<lparr>source = 7::nat, refCount = 1, chunkTransform = ''t1''\<rparr> = 1
   \<and> removeSource_call exampleStore 7 = Inr exampleStoreRemoved
   \<and> visibleSources (store_layer exampleStoreRemoved) 7 = None
   \<and> sourceReferences exampleStoreRemoved = sourceReferences exampleStore
   \<and> visibleSources (store_layer (addSource_call exampleStore 7 ''t2'')) 7
       = Some \<lparr>source = 7, refCount = 2, chunkTransform = ''t2''\<rparr>
   \<and> visibleSources (store_layer exampleStoreRemoved) 7 = None
   \<and> visibleSources (store_layer (addSource_call exampleStoreRemoved 7 ''t0'')) 7
       = Some \<lparr>source = 7, refCount = 1, chunkTransform = ''t0''\<rparr>
   \<and> removeSource_call (addSource_call exampleStore 7 ''t2'') 7
       = Inr (exampleStore\<lparr>store_layer := (store_layer exampleStore)\<lparr>visibleSources :=
               [7 \<mapsto> \<lparr>source = 7, refCount = 1, chunkTransform = ''t2''\<rparr>]\<rparr>\<rparr>)"
proof -
  have r: "removeSource_call exampleStore 7 = Inr exampleStoreRemoved"
    using addSource_removeSource_store
      [where store = exampleStore and s = 7
         and info = "\<lparr>source = 7, refCount = 1, chunkTransform = ''t1''\<rparr>"]
    by (simp add: exampleStore_def exampleStoreRemoved_def)
  have a: "store_layer (addSource_call exampleStore 7 ''t2'') =
      (store_layer exampleStore)\<lparr>visibleSources :=
         [7 \<mapsto> \<lparr>source = 7, refCount = 2, chunkTransform = ''t2''\<rparr>]\<rparr>"
    using addSource_removeSource_store
      [where store = exampleStore and s = 7 and ct = "''t2''"
         and info = "\<lparr>source = 7, refCount = 1, chunkTransform = ''t1''\<rparr>"]
    by (simp add: exampleStore_def)
  have b: "store_layer (addSource_call exampleStoreRemoved 7 ''t0'') =
      \<lparr>visibleSources = [7 \<mapsto> \<lparr>source = 7, refCount = 1, chunkTransform = ''t0''\<rparr>],
       visibleSourcesList = []\<rparr>"
    using addSource_removeSource_store
      [where store = exampleStoreRemoved and s = 7 and ct = "''t0''"]
    by (simp add: exampleStoreRemoved_def)
  have c: "removeSource_call (addSource_call exampleStore 7 ''t2'') 7
       = Inr (exampleStore\<lparr>store_layer := (store_layer exampleStore)\<lparr>visibleSources :=
               [7 \<mapsto> \<lparr>source = 7, refCount = 1, chunkTransform = ''t2''\<rparr>]\<rparr>\<rparr>)"
    using addSource_removeSource_store
      [where store = "addSource_call exampleStore 7 ''t2''" and s = 7
         and info = "\<lparr>source = 7, refCount = 2, chunkTransform = ''t2''\<rparr>"]
    by (simp add: a) (simp add: addSource_call_def exampleStore_def)
  show ?thesis
    using r a b c by (simp add: exampleStore_def exampleStoreRemoved_def)
qed

text \<open>
  Claim C7 as it is stated does not hold: the \<open>removeSource\<close> call that deletes the entry
  of a source leaves the two references to the source in place, where a release would
  leave one.
\<close>

theorem removeSource_release_counterexample:
  "removeSource_call exampleStore 7 = Inr exampleStoreRemoved
   \<and> visibleSources (store_layer exampleStoreRemoved) 7 = None
   \<and> sourceReferences exampleStore 7 = 2
   \<and> sourceReferences exampleStoreRemoved 7 = 2
   \<and> sourceReferences (dispose exampleStore 7) 7 = 1"
  by (simp add: removeSource_call_def removeSource_def dispose_def exampleStore_def
      exampleStoreRemoved_def)

section \<open>Properties of reading a value of an uncompressed chunk\<close>

lemma prod_list_take_Suc:
  "i < length xs \<Longrightarrow> prod_list (take (Suc i) xs) = prod_list (take i xs) * (xs ! i :: nat)"
  by (simp add: take_Suc_conv_app_nth)

lemma getValueAt_loop_closed:
  assumes "length dataPosition \<le> length cds"
  shows "i \<le> length dataPosition \<Longrightarrow>
     getValueAt_loop dataPosition cds i (Some idx) (Some (prod_list (take i cds))) =
       Some (idx + (\<Sum>j = i ..< length dataPosition. dataPosition ! j * prod_list (take j cds)))"
proof (induction "length dataPosition - i" arbitrary: i idx)
  case 0
  then have "i = length dataPosition" by simp
  then show ?case by (simp add: getValueAt_loop.simps [of dataPosition cds "length dataPosition"])
next
  case (Suc n)
  then have lt: "i < length dataPosition" and n: "n = length dataPosition - Suc i"
    by simp_all
  have lt': "i < length cds" using lt assms by simp
  have step: "getValueAt_loop dataPosition cds i (Some idx) (Some (prod_list (take i cds))) =
      getValueAt_loop dataPosition cds (Suc i)
        (Some (idx + prod_list (take i cds) * dataPosition ! i))
        (Some (prod_list (take (Suc i) cds)))"
    using lt lt'
    by (subst getValueAt_loop.simps)
       (simp add: num_add_def num_mul_def array_get_def prod_list_take_Suc)
  have ih: "getValueAt_loop dataPosition cds (Suc i)
        (Some (idx + prod_list (take i cds) * dataPosition ! i))
        (Some (prod_list (take (Suc i) cds))) =
      Some (idx + prod_list (take i cds) * dataPosition ! i +
        (\<Sum>j = Suc i ..< length dataPosition. dataPosition ! j * prod_list (take j cds)))"
    using Suc.hyps(1) [OF n] lt by simp
  have split: "(\<Sum>j = i ..< length dataPosition. dataPosition ! j * prod_list (take j cds)) =
      dataPosition ! i * prod_list (take i cds) +
      (\<Sum>j = Suc i ..< length dataPosition. dataPosition ! j * prod_list (take j cds))"
    using lt by (simp add: sum.atLeast_Suc_lessThan)
  show ?case
    unfolding step ih split by (simp add: mult.commute)
qed

lemma getValueAt_loop_linearIndex:
  assumes "length dataPosition \<le> length cds"
  shows "getValueAt_loop dataPosition cds 0 (Some 0) (Some 1) = Some (linearIndex dataPosition cds)"
  using getValueAt_loop_closed [OF assms, of 0 0]
  by (simp add: linearIndex_def atLeast0LessThan)

lemma data_get_Some: "data_get d (Some n) = (if n < length d then Some (d ! n) else None)"
  by (simp add: data_get_def array_get_def)

text \<open>
  Claim C9. A chunk without data answers every position with the fill value of its
  source specification. With data present, and a position of no more dimensions than
  the chunk has, the value is read at the linear index in which dimension \<open>i\<close> has the
  product of the chunk sizes before \<open>i\<close> as its stride: as a \<open>Uint64\<close> of the two words
  at twice that index for \<open>UINT64\<close> data, as the array element itself for every other
  data type.
\<close>

theorem getValueAt_fill_or_linear:
  "(data this = None \<longrightarrow> getValueAt this dataPosition = fillValue this)
   \<and> (length dataPosition \<le> length (chunkDataSize this) \<longrightarrow>
       (\<forall>d. data this = Some d \<longrightarrow>
          (let index = linearIndex dataPosition (chunkDataSize this) in
           (dataType this = UINT64 \<longrightarrow>
              getValueAt this dataPosition =
                Uint64 (data_get d (Some (2 * index))) (data_get d (Some (2 * index + 1)))
              \<and> (2 * index + 1 < length d \<longrightarrow>
                 getValueAt this dataPosition =
                   Uint64 (Some (d ! (2 * index))) (Some (d ! (2 * index + 1)))))
         \<and> (dataType this \<noteq> UINT64 \<longrightarrow>
              getValueAt this dataPosition =
                (case data_get d (Some index) of None \<Rightarrow> Undefined | Some v \<Rightarrow> Number v)
              \<and> (index < length d \<longrightarrow> getValueAt this dataPosition = Number (d ! index))))))"
proof -
  have fill: "data this = None \<longrightarrow> getValueAt this dataPosition = fillValue this"
    by (simp add: getValueAt_def)
  have read: "getValueAt this dataPosition =
      (if dataType this = UINT64
       then Uint64 (data_get d (Some (2 * linearIndex dataPosition (chunkDataSize this))))
              (data_get d (Some (2 * linearIndex dataPosition (chunkDataSize this) + 1)))
       else (case data_get d (Some (linearIndex dataPosition (chunkDataSize this))) of
               None \<Rightarrow> Undefined | Some v \<Rightarrow> Number v))"
    if len: "length dataPosition \<le> length (chunkDataSize this)" and d: "data this = Some d" for d
  proof -
    have idx: "getValueAt_loop dataPosition (chunkDataSize this) 0 (Some 0) (Some (Suc 0)) =
        Some (linearIndex dataPosition (chunkDataSize this))"
      using getValueAt_loop_linearIndex [OF len] by simp
    show ?thesis
      using d
      by (cases "dataType this")
         (simp_all add: getValueAt_def idx num_mul_def num_add_def mult.commute)
  qed
  show ?thesis
    using fill read by (auto simp: Let_def data_get_Some)
qed

theorem getValueAt_fill_or_linear_witness:
  "getValueAt \<lparr>data = None, chunkDataSize = [2, 3], dataType = UINT8, fillValue = Number (9::nat)\<rparr> [1, 2]
     = Number 9
   \<and> length [1, 2 :: nat] \<le> length [2, 3 :: nat]
   \<and> linearIndex [1, 2] [2, 3] = 5
   \<and> getValueAt \<lparr>data = Some [10, 11, 12, 13, 14, 15 :: nat], chunkDataSize = [2, 3],
        dataType = UINT8, fillValue = Number 9\<rparr> [1, 2] = Number 15
   \<and> linearIndex [1, 1] [2, 3] = 3
   \<and> getValueAt \<lparr>data = Some [0, 1, 2, 3, 4, 5, 6, 7, 8, 9, 10, 11 :: nat], chunkDataSize = [2, 3],
        dataType = UINT64, fillValue = Number 9\<rparr> [1, 1] = Uint64 (Some 6) (Some 7)"
proof -
  have i1: "linearIndex [Suc 0, 2] [2, 3] = 5" and i2: "linearIndex [Suc 0, Suc 0] [2, 3] = 3"
    by (simp_all add: linearIndex_def lessThan_Suc numeral_2_eq_2)
  show ?thesis
    using getValueAt_fill_or_linear
        [of "\<lparr>data = None, chunkDataSize = [2, 3], dataType = UINT8, fillValue = Number (9::nat)\<rparr>" "[1, 2]"]
      getValueAt_fill_or_linear
        [of "\<lparr>data = Some [10, 11, 12, 13, 14, 15 :: nat], chunkDataSize = [2, 3],
            dataType = UINT8, fillValue = Number 9\<rparr>" "[1, 2]"]
      getValueAt_fill_or_linear
        [of "\<lparr>data = Some [0, 1, 2, 3, 4, 5, 6, 7, 8, 9, 10, 11 :: nat], chunkDataSize = [2, 3],
            dataType = UINT64, fillValue = Number 9\<rparr>" "[1, 1]"]
    by (simp add: i1 i2 Let_def data_get_Some)
qed

section \<open>Properties of the raw chunk decoder\<close>

text \<open>
  Claim C8. \<open>decodeRawChunk\<close> raises its size error exactly when the byte length of the
  response differs from the product of the chunk's extents times the byte size of the
  declared element type. When the lengths agree, the decoder hands a view of the
  declared element type over the bytes of the response to \<open>postProcessRawData\<close>, with
  the elements converted when the stated endianness differs from the platform's, and
  its outcome is the outcome of that step; so with a post-processing step that does
  not fail, the decoder fails if and only if the lengths differ.
\<close>

theorem decodeRawChunk_size_check:
  "(let expectedBytes = prod_list (chunk_chunkDataSize chunk) * DATA_TYPE_BYTES (spec_dataType chunk);
        endianness = (case endianness' of None \<Rightarrow> ENDIANNESS | Some e \<Rightarrow> e)
    in (length response \<noteq> expectedBytes \<longrightarrow>
          decodeRawChunk DATA_TYPE_BYTES ENDIANNESS convertEndian postProcessRawData chunk response endianness' =
            Inl (Error (rawSizeMessage (length response) (prod_list (chunk_chunkDataSize chunk))
                   (DATA_TYPE_BYTES (spec_dataType chunk)) expectedBytes)))
     \<and> (length response = expectedBytes \<longrightarrow>
          decodeRawChunk DATA_TYPE_BYTES ENDIANNESS convertEndian postProcessRawData chunk response endianness' =
            postProcessRawData chunk
              \<lparr>view_dataType = spec_dataType chunk,
               view_buffer = (if endianness \<noteq> ENDIANNESS
                              then convertEndian response (DATA_TYPE_BYTES (spec_dataType chunk)) endianness
                              else response)\<rparr>)
     \<and> ((\<forall>view. \<not> isl (postProcessRawData chunk view)) \<longrightarrow>
          (isl (decodeRawChunk DATA_TYPE_BYTES ENDIANNESS convertEndian postProcessRawData chunk response endianness')
           \<longleftrightarrow> length response \<noteq> expectedBytes)))"
  by (simp add: decodeRawChunk_def Let_def makeDataTypeArrayView_def)

theorem decodeRawChunk_size_check_witness:
  "length [1, 2, 3 :: nat] \<noteq> prod_list [2, 1] * elementBytes UINT16
   \<and> isl (decodeRawChunk elementBytes LITTLE swapElements (\<lambda>c v. Inr v)
        \<lparr>spec_dataType = UINT16, chunk_chunkDataSize = [2, 1]\<rparr> [1, 2, 3 :: nat] None)
   \<and> length [1, 2, 3, 4 :: nat] = prod_list [2, 1] * elementBytes UINT16
   \<and> (\<forall>view :: nat TypedArrayView. \<not> isl (Inr view :: js_error + nat TypedArrayView))
   \<and> decodeRawChunk elementBytes LITTLE swapElements (\<lambda>c v. Inr v)
        \<lparr>spec_dataType = UINT16, chunk_chunkDataSize = [2, 1]\<rparr> [1, 2, 3, 4 :: nat] None
      = Inr \<lparr>view_dataType = UINT16, view_buffer = [1, 2, 3, 4]\<rparr>
   \<and> decodeRawChunk elementBytes LITTLE swapElements (\<lambda>c v. Inr v)
        \<lparr>spec_dataType = UINT16, chunk_chunkDataSize = [2, 1]\<rparr> [1, 2, 3, 4 :: nat] (Some BIG)
      = Inr \<lparr>view_dataType = UINT16, view_buffer = [2, 1, 4, 3]\<rparr>"
  using
    decodeRawChunk_size_check
      [where chunk = "\<lparr>spec_dataType = UINT16, chunk_chunkDataSize = [2, 1]\<rparr>"
         and DATA_TYPE_BYTES = elementBytes and ENDIANNESS = LITTLE and endianness' = "None"
         and response = "[1, 2, 3 :: nat]" and convertEndian = swapElements
         and postProcessRawData = "\<lambda>c v. Inr v"]
    decodeRawChunk_size_check
      [where chunk = "\<lparr>spec_dataType = UINT16, chunk_chunkDataSize = [2, 1]\<rparr>"
         and DATA_TYPE_BYTES = elementBytes and ENDIANNESS = LITTLE and endianness' = "None"
         and response = "[1, 2, 3, 4 :: nat]" and convertEndian = swapElements
         and postProcessRawData = "\<lambda>c v. Inr v"]
    decodeRawChunk_size_check
      [where chunk = "\<lparr>spec_dataType = UINT16, chunk_chunkDataSize = [2, 1]\<rparr>"
         and DATA_TYPE_BYTES = elementBytes and ENDIANNESS = LITTLE and endianness' = "Some BIG"
         and response = "[1, 2, 3, 4 :: nat]" and convertEndian = swapElements
         and postProcessRawData = "\<lambda>c v. Inr v"]
  by (simp add: elementBytes_def Let_def)

section \<open>Properties of the transformed sources\<close>






lemma checkChannelDimensions_None:
  "checkChannelDimensions transform cds rest k = None \<longleftrightarrow>
     (\<forall>d<length rest. rest ! d = - 1 \<or>
        array_get cds (rest ! d) = array_get (channelSpaceShape transform) (int (k + d)))"
proof (induction rest arbitrary: k)
  case Nil
  then show ?case by simp
next
  case (Cons chunkDim rest)
  show ?case
    by (simp add: Cons.IH All_less_Suc2 add.assoc add.left_commute)
qed

lemma updateVisibleLayersNow_acc:
  "updateVisibleLayersNow vt gctp mg info layers acc =
     (case updateVisibleLayersNow vt gctp mg info layers [] of
        Inl e \<Rightarrow> Inl e | Inr r \<Rightarrow> Inr (acc @ r))"
proof (induction layers arbitrary: acc)
  case Nil
  then show ?case by simp
next
  case (Cons l layers)
  show ?case
    by (simp add: Cons.IH [of "acc @ _"] Cons.IH [of "[_]"] split: sum.splits prod.splits)
qed

lemma updateVisibleLayersNow_append:
  "updateVisibleLayersNow vt gctp mg info (pre @ post) acc =
     (case updateVisibleLayersNow vt gctp mg info pre acc of
        Inl e \<Rightarrow> Inl e | Inr a \<Rightarrow> updateVisibleLayersNow vt gctp mg info post a)"
  by (induction pre arbitrary: acc) (auto split: sum.splits prod.splits)


lemma getVolumetricTransformedSources_error:
  "transform_error transform = Some e \<Longrightarrow>
   getVolumetricTransformedSources vt gctp mg info transform getSources messages =
     Inr \<lparr>result_sources = [], result_messages = [\<lparr>severity = error, message = e\<rparr>],
          result_disposed = []\<rparr>"
  by (simp add: getVolumetricTransformedSources_def returnError_def clearMessages_def addMessage_def)

lemma getTransformedSources_error:
  "transform_error (layer_transform layer) = Some e \<Longrightarrow>
   getTransformedSources vt gctp mg info layer messages =
     Inr (\<lparr>result_sources = [], result_messages = [\<lparr>severity = error, message = e\<rparr>],
           result_disposed = []\<rparr>, layer)"
  by (simp add: getTransformedSources_def getVolumetricTransformedSources_error)

text \<open>
  Claim C3. For a render layer whose transform is marked as an error, the transformed
  sources are the empty list and the layer's message list holds exactly one message,
  of severity error, with the text of the transform's error, whatever the list held
  before and whatever the source callback would do. In the update of the visible
  layers such a layer never raises: it contributes its own entry, with its
  registration of visible sources untouched, and the layers before and after it are
  processed as they are without it.
\<close>

theorem transform_error_per_layer:
  "(transform_error transform = Some e \<longrightarrow>
      getVolumetricTransformedSources vt gctp mg info transform getSources messages =
        Inr \<lparr>result_sources = [], result_messages = [\<lparr>severity = error, message = e\<rparr>],
             result_disposed = []\<rparr>)
   \<and> (transform_error (layer_transform layer) = Some e \<longrightarrow>
      updateVisibleLayersNow vt gctp mg info (before @ layer # after) [] =
        (case updateVisibleLayersNow vt gctp mg info before [] of
           Inl x \<Rightarrow> Inl x
         | Inr entries_before \<Rightarrow>
             (case updateVisibleLayersNow vt gctp mg info after [] of
                Inl x \<Rightarrow> Inl x
              | Inr entries_after \<Rightarrow>
                  Inr (entries_before @
                       [\<lparr>entry_layer = layer,
                         entry_info = \<lparr>result_sources = [],
                           result_messages = [\<lparr>severity = error, message = e\<rparr>],
                           result_disposed = []\<rparr>\<rparr>] @
                       entries_after))))"
proof -
  have one: "updateVisibleLayersNow vt gctp mg info (layer # after) acc =
      updateVisibleLayersNow vt gctp mg info after
        (acc @ [\<lparr>entry_layer = layer,
                 entry_info = \<lparr>result_sources = [],
                   result_messages = [\<lparr>severity = error, message = e\<rparr>],
                   result_disposed = []\<rparr>\<rparr>])"
    if "transform_error (layer_transform layer) = Some e" for acc
    using that by (simp add: getTransformedSources_error)
  have all: "updateVisibleLayersNow vt gctp mg info (before @ layer # after) [] =
      (case updateVisibleLayersNow vt gctp mg info before [] of
         Inl x \<Rightarrow> Inl x
       | Inr entries_before \<Rightarrow>
           (case updateVisibleLayersNow vt gctp mg info after [] of
              Inl x \<Rightarrow> Inl x
            | Inr entries_after \<Rightarrow>
                Inr (entries_before @
                     [\<lparr>entry_layer = layer,
                       entry_info = \<lparr>result_sources = [],
                         result_messages = [\<lparr>severity = error, message = e\<rparr>],
                         result_disposed = []\<rparr>\<rparr>] @
                     entries_after)))"
    if err: "transform_error (layer_transform layer) = Some e"
  proof (cases "updateVisibleLayersNow vt gctp mg info before []")
    case (Inl x)
    then show ?thesis
      by (simp only: updateVisibleLayersNow_append [of _ _ _ _ before] sum.case)
  next
    case (Inr entries_before)
    show ?thesis
      unfolding updateVisibleLayersNow_append [of _ _ _ _ before] Inr sum.case one [OF err]
      by (subst updateVisibleLayersNow_acc) (simp split: sum.splits)
  qed
  show ?thesis
    using all by (simp add: getVolumetricTransformedSources_error)
qed


theorem transform_error_per_layer_witness:
  "transform_error (exampleTransform\<lparr>transform_error := Some ''rank mismatch''\<rparr>) = Some ''rank mismatch''
   \<and> getVolumetricTransformedSources (\<lambda>n t. ()) (\<lambda>t m. Inr exampleChunkTransform) (\<lambda>t s c. Inr ())
        exampleInfo (exampleTransform\<lparr>transform_error := Some ''rank mismatch''\<rparr>)
        (\<lambda>options. Inl (Error ''no sources'')) [\<lparr>severity = other_severity, message = ''old''\<rparr>]
      = Inr \<lparr>result_sources = [],
             result_messages = [\<lparr>severity = error, message = ''rank mismatch''\<rparr>],
             result_disposed = []\<rparr>
   \<and> updateVisibleLayersNow (\<lambda>n t. ()) (\<lambda>t m. Inr exampleChunkTransform) (\<lambda>t s c. Inr ())
        exampleInfo
        [exampleLayer (exampleTransform\<lparr>transform_error := Some ''rank mismatch''\<rparr>),
         exampleLayer (exampleTransform\<lparr>channelSpaceShape := [3]\<rparr>)] []
      = Inr [\<lparr>entry_layer = exampleLayer (exampleTransform\<lparr>transform_error := Some ''rank mismatch''\<rparr>),
              entry_info = \<lparr>result_sources = [],
                result_messages = [\<lparr>severity = error, message = ''rank mismatch''\<rparr>],
                result_disposed = []\<rparr>\<rparr>,
             \<lparr>entry_layer = (exampleLayer (exampleTransform\<lparr>channelSpaceShape := [3]\<rparr>))
                \<lparr>layer_registration :=
                   \<lparr>visibleSources = [chunkSource exampleSource \<mapsto>
                        \<lparr>source = chunkSource exampleSource, refCount = 1,
                         chunkTransform = exampleChunkTransform\<rparr>],
                    visibleSourcesList = []\<rparr>\<rparr>,
              entry_info = \<lparr>result_sources =
                  [[\<lparr>ts_source = chunkSource exampleSource, ts_chunkTransform = exampleChunkTransform,
                     ts_geometry = ()\<rparr>]],
                result_messages = [], result_disposed = []\<rparr>\<rparr>]"
proof -
  have err: "transform_error (exampleTransform\<lparr>transform_error := Some ''rank mismatch''\<rparr>)
      = Some ''rank mismatch''"
    by simp
  have ok: "updateVisibleLayersNow (\<lambda>n t. ()) (\<lambda>t m. Inr exampleChunkTransform) (\<lambda>t s c. Inr ())
        exampleInfo [exampleLayer (exampleTransform\<lparr>channelSpaceShape := [3]\<rparr>)] []
      = Inr [\<lparr>entry_layer = (exampleLayer (exampleTransform\<lparr>channelSpaceShape := [3]\<rparr>))
                \<lparr>layer_registration :=
                   \<lparr>visibleSources = [chunkSource exampleSource \<mapsto>
                        \<lparr>source = chunkSource exampleSource, refCount = 1,
                         chunkTransform = exampleChunkTransform\<rparr>],
                    visibleSourcesList = []\<rparr>\<rparr>,
              entry_info = \<lparr>result_sources =
                  [[\<lparr>ts_source = chunkSource exampleSource, ts_chunkTransform = exampleChunkTransform,
                     ts_geometry = ()\<rparr>]],
                result_messages = [], result_disposed = []\<rparr>\<rparr>]"
    by (simp add: getTransformedSources_def getVolumetricTransformedSources_def
        getTransformedSource_def exampleLayer_def exampleTransform_def exampleSource_def
        exampleChunkTransform_def clearMessages_def array_get_def addSource_def Let_def)
  show ?thesis
    using transform_error_per_layer
      [where transform = "exampleTransform\<lparr>transform_error := Some ''rank mismatch''\<rparr>"
         and e = "''rank mismatch''" and vt = "\<lambda>n t. ()"
         and gctp = "\<lambda>t m. Inr exampleChunkTransform" and mg = "\<lambda>t s c. Inr ()"
         and info = exampleInfo and getSources = "\<lambda>options. Inl (Error ''no sources'')"
         and messages = "[\<lparr>severity = other_severity, message = ''old''\<rparr>]"
         and layer = "exampleLayer (exampleTransform\<lparr>transform_error := Some ''rank mismatch''\<rparr>)"
         and before = "[]" and after = "[exampleLayer (exampleTransform\<lparr>channelSpaceShape := [3]\<rparr>)]"]
    unfolding ok
    by (simp add: err exampleLayer_def)
qed


section \<open>Properties of fetching a chunk\<close>

lemma set_splice1: "set (splice1 xs i) \<subseteq> set xs"
  unfolding splice1_def Let_def
  using set_take_subset [of _ xs] set_drop_subset [of _ xs] by auto

lemma set_map_delete: "set (map_delete k m) \<subseteq> set m"
  by (auto simp: map_delete_def)

lemma set_map_set: "kv \<in> set (map_set k v m) \<Longrightarrow> kv = (k, v) \<or> kv \<in> set m"
  by (induction m) (auto split: if_splits)

lemma entryOf_in_map: "x \<in> set (entryOf s key) \<Longrightarrow> (key, entryOf s key) \<in> set (requestersMap s)"
  by (auto simp: entryOf_def split: option.splits dest: map_of_SomeD)

lemma requestersMap_finally:
  "requestersMap (fetchChunk_finally r s) =
     (let key = call_key (frames s ! r);
          entry' = splice1 (entryOf s key) (indexOf (entryOf s key) r)
      in if entry' = [] then map_delete key (requestersMap s)
         else map_set key entry' (requestersMap s))"
  by (simp add: fetchChunk_finally_def requestersMap_def Let_def)

lemma frames_finally [simp]: "frames (fetchChunk_finally r s) = frames s"
  by (simp add: fetchChunk_finally_def Let_def)

lemma chunks_finally [simp]: "chunks (fetchChunk_finally r s) = chunks s"
  by (simp add: fetchChunk_finally_def Let_def)

lemma requestersMap_setFrame [simp]: "requestersMap (setFrame r f s) = requestersMap s"
  by (simp add: setFrame_def requestersMap_def)

lemma entryOf_setFrame [simp]: "entryOf (setFrame r f s) key = entryOf s key"
  by (simp add: entryOf_def)

lemma frames_setFrame: "frames (setFrame r f s) = (frames s)[r := f (frames s ! r)]"
  by (simp add: setFrame_def)

lemma wellFormed_finally:
  assumes "wellFormed s"
  shows "wellFormed (fetchChunk_finally r s)"
proof -
  define key where "key = call_key (frames s ! r)"
  define entry' where "entry' = splice1 (entryOf s key) (indexOf (entryOf s key) r)"
  have rm: "requestersMap (fetchChunk_finally r s) =
      (if entry' = [] then map_delete key (requestersMap s)
       else map_set key entry' (requestersMap s))"
    by (simp add: requestersMap_finally Let_def key_def entry'_def)
  have sub: "\<exists>e0. (k, e0) \<in> set (requestersMap s) \<and> set e \<subseteq> set e0"
    if ke: "(k, e) \<in> set (requestersMap (fetchChunk_finally r s))" for k e
  proof (cases "entry' = []")
    case True
    with ke rm have "(k, e) \<in> set (map_delete key (requestersMap s))" by simp
    then have "(k, e) \<in> set (requestersMap s)"
      using set_map_delete [of key "requestersMap s"] by (rule rev_subsetD)
    then show ?thesis by (intro exI [of _ e]) simp
  next
    case False
    with ke rm have "(k, e) \<in> set (map_set key entry' (requestersMap s))" by simp
    then have "(k, e) = (key, entry') \<or> (k, e) \<in> set (requestersMap s)"
      by (rule set_map_set)
    then show ?thesis
    proof
      assume eq: "(k, e) = (key, entry')"
      from False obtain x where "x \<in> set entry'" by (cases entry') auto
      then have "x \<in> set (entryOf s key)"
        using set_splice1 [of "entryOf s key"] by (auto simp: entry'_def)
      then have "(key, entryOf s key) \<in> set (requestersMap s)" by (rule entryOf_in_map)
      moreover have "set entry' \<subseteq> set (entryOf s key)"
        unfolding entry'_def by (rule set_splice1)
      ultimately show ?thesis using eq by (intro exI [of _ "entryOf s key"]) simp
    next
      assume "(k, e) \<in> set (requestersMap s)"
      then show ?thesis by (intro exI [of _ e]) simp
    qed
  qed
  show ?thesis
    unfolding wellFormed_def
  proof (intro ballI, clarify)
    fix k e q
    assume "(k, e) \<in> set (requestersMap (fetchChunk_finally r s))" and q: "q \<in> set e"
    from sub [OF this(1)] obtain e0 where e0: "(k, e0) \<in> set (requestersMap s)" "set e \<subseteq> set e0"
      by blast
    from q e0(2) have "q \<in> set e0" by (rule subsetD [rotated])
    with assms e0(1) have "q < length (frames s) \<and> call_key (frames s ! q) = k"
      unfolding wellFormed_def by fast
    then show "q < length (frames (fetchChunk_finally r s))
        \<and> call_key (frames (fetchChunk_finally r s) ! q) = k"
      by simp
  qed
qed


lemma wellFormed_setFrame:
  assumes "wellFormed s" and "\<And>fr. call_key (f fr) = call_key fr"
  shows "wellFormed (setFrame r f s)"
  unfolding wellFormed_def
proof (intro ballI, clarify)
  fix k e q
  assume "(k, e) \<in> set (requestersMap (setFrame r f s))" and q: "q \<in> set e"
  then have "(k, e) \<in> set (requestersMap s)" by simp
  with assms(1) q have *: "q < length (frames s)" "call_key (frames s ! q) = k"
    unfolding wellFormed_def by fast+
  show "q < length (frames (setFrame r f s)) \<and> call_key (frames (setFrame r f s) ! q) = k"
    using * assms(2) by (cases "q = r") (simp_all add: frames_setFrame)
qed

lemma requestersMap_request:
  "requestersMap (fetchChunk_request s key tr) =
     map_set key (entryOf s key @ [length (frames s)]) (requestersMap s)"
  by (simp add: fetchChunk_request_def Let_def requestersMap_def)

lemma frames_request:
  "frames (fetchChunk_request s key tr) = frames s @
     [\<lparr>call_key = key, call_transform = tr, rpcSettled = False, promiseValue = None,
       call_outcome = None\<rparr>]"
  by (simp add: fetchChunk_request_def Let_def)

lemma wellFormed_request:
  assumes "wellFormed s"
  shows "wellFormed (fetchChunk_request s key tr)"
  unfolding wellFormed_def
proof (intro ballI, clarify)
  fix k e q
  assume ke: "(k, e) \<in> set (requestersMap (fetchChunk_request s key tr))" and q: "q \<in> set e"
  from ke have "(k, e) \<in> set (map_set key (entryOf s key @ [length (frames s)]) (requestersMap s))"
    by (simp add: requestersMap_request)
  then have "(k, e) = (key, entryOf s key @ [length (frames s)]) \<or> (k, e) \<in> set (requestersMap s)"
    by (rule set_map_set)
  then have "(q = length (frames s) \<and> k = key) \<or> (q < length (frames s) \<and> call_key (frames s ! q) = k)"
  proof
    assume eq: "(k, e) = (key, entryOf s key @ [length (frames s)])"
    show ?thesis
    proof (cases "q = length (frames s)")
      case True
      with eq show ?thesis by simp
    next
      case False
      with eq q have qe: "q \<in> set (entryOf s key)" by auto
      then have "(key, entryOf s key) \<in> set (requestersMap s)" by (rule entryOf_in_map)
      with assms qe have "q < length (frames s) \<and> call_key (frames s ! q) = key"
        unfolding wellFormed_def by fast
      with eq show ?thesis by simp
    qed
  next
    assume "(k, e) \<in> set (requestersMap s)"
    with assms q have "q < length (frames s) \<and> call_key (frames s ! q) = k"
      unfolding wellFormed_def by fast
    then show ?thesis by simp
  qed
  then show "q < length (frames (fetchChunk_request s key tr))
      \<and> call_key (frames (fetchChunk_request s key tr) ! q) = k"
    by (auto simp: frames_request nth_append)
qed


subsection \<open>What each operation does to one frame\<close>

lemma length_frames_setFrame [simp]: "length (frames (setFrame r f s)) = length (frames s)"
  by (simp add: frames_setFrame)

lemma frame_setFrame:
  "i < length (frames s) \<Longrightarrow>
   frames (setFrame r f s) ! i = (if i = r then f (frames s ! i) else frames s ! i)"
  by (simp add: frames_setFrame nth_list_update)

lemma frames_called [simp]: "frames (s\<lparr>requesterCalls := cs\<rparr>) = frames s"
  by simp

lemma requestersMap_called [simp]: "requestersMap (s\<lparr>requesterCalls := cs\<rparr>) = requestersMap s"
  by (simp add: requestersMap_def)

lemma entryOf_called [simp]: "entryOf (s\<lparr>requesterCalls := cs\<rparr>) key = entryOf s key"
  by (simp add: entryOf_def)

lemma wellFormed_called [simp]: "wellFormed (s\<lparr>requesterCalls := cs\<rparr>) = wellFormed s"
  by (simp add: wellFormed_def)

lemma length_frames_invokeRequester [simp]:
  "length (frames (invokeRequester c s r)) = length (frames s)"
  by (simp add: invokeRequester_def Let_def)

lemma frame_invokeRequester:
  "i < length (frames s) \<Longrightarrow>
   frames (invokeRequester c s r) ! i =
     (if i = r \<and> promiseValue (frames s ! i) = None
      then (frames s ! i)\<lparr>promiseValue := Some (call_transform (frames s ! i) c)\<rparr>
      else frames s ! i)"
  by (cases "i = r") (auto simp: invokeRequester_def Let_def frame_setFrame)

lemma length_frames_resumeCall [simp]: "length (frames (resumeCall s r)) = length (frames s)"
  by (simp add: resumeCall_def split: option.splits)

lemma frame_resumeCall:
  "i < length (frames s) \<Longrightarrow>
   frames (resumeCall s r) ! i =
     (if i = r \<and> rpcSettled (frames s ! i) \<and> call_outcome (frames s ! i) = None
      then (case promiseValue (frames s ! i) of
              None \<Rightarrow> frames s ! i
            | Some v \<Rightarrow> (frames s ! i)\<lparr>call_outcome := Some (Resolved v)\<rparr>)
      else frames s ! i)"
  by (cases "i = r") (auto simp: resumeCall_def frame_setFrame split: option.splits)

lemma length_frames_rpcResolved [simp]: "length (frames (rpcResolved r s)) = length (frames s)"
  by (simp add: rpcResolved_def)

lemma frame_rpcResolved:
  "i < length (frames s) \<Longrightarrow>
   frames (rpcResolved r s) ! i =
     (if i = r \<and> \<not> rpcSettled (frames s ! i) \<and> call_outcome (frames s ! i) = None
      then (case promiseValue (frames s ! i) of
              None \<Rightarrow> (frames s ! i)\<lparr>rpcSettled := True\<rparr>
            | Some v \<Rightarrow> (frames s ! i)\<lparr>rpcSettled := True, call_outcome := Some (Resolved v)\<rparr>)
      else frames s ! i)"
  by (cases "i = r") (auto simp: rpcResolved_def frame_resumeCall frame_setFrame split: option.splits)

lemma length_frames_rpcRejected [simp]: "length (frames (rpcRejected r s)) = length (frames s)"
  by (simp add: rpcRejected_def)

lemma frame_rpcRejected:
  "i < length (frames s) \<Longrightarrow>
   frames (rpcRejected r s) ! i =
     (if i = r \<and> \<not> rpcSettled (frames s ! i) \<and> call_outcome (frames s ! i) = None
      then (frames s ! i)\<lparr>rpcSettled := True, call_outcome := Some Rejected\<rparr>
      else frames s ! i)"
  by (cases "i = r") (auto simp: rpcRejected_def frame_setFrame)

lemma frame_request:
  "i < length (frames s) \<Longrightarrow> frames (fetchChunk_request s key tr) ! i = frames s ! i"
  by (simp add: frames_request nth_append)

lemma length_frames_foldl_invoke [simp]:
  "length (frames (foldl (invokeRequester c) s rs)) = length (frames s)"
  by (induction rs arbitrary: s) simp_all

lemma length_frames_foldl_resume [simp]:
  "length (frames (foldl resumeCall s rs)) = length (frames s)"
  by (induction rs arbitrary: s) simp_all

subsection \<open>Well-formedness is preserved\<close>

lemma wellFormed_invokeRequester: "wellFormed s \<Longrightarrow> wellFormed (invokeRequester c s r)"
  by (simp add: invokeRequester_def Let_def wellFormed_setFrame)

lemma wellFormed_resumeCall: "wellFormed s \<Longrightarrow> wellFormed (resumeCall s r)"
  by (simp add: resumeCall_def wellFormed_setFrame wellFormed_finally split: option.splits)

lemma wellFormed_rpcResolved: "wellFormed s \<Longrightarrow> wellFormed (rpcResolved r s)"
  by (simp add: rpcResolved_def wellFormed_setFrame wellFormed_resumeCall)

lemma wellFormed_rpcRejected: "wellFormed s \<Longrightarrow> wellFormed (rpcRejected r s)"
  by (simp add: rpcRejected_def wellFormed_setFrame wellFormed_finally)

lemma wellFormed_foldl_invoke: "wellFormed s \<Longrightarrow> wellFormed (foldl (invokeRequester c) s rs)"
  by (induction rs arbitrary: s) (simp_all add: wellFormed_invokeRequester)

lemma wellFormed_foldl_resume: "wellFormed s \<Longrightarrow> wellFormed (foldl resumeCall s rs)"
  by (induction rs arbitrary: s) (simp_all add: wellFormed_resumeCall)

lemma wellFormed_chunks_update: "wellFormed s \<Longrightarrow> wellFormed (s\<lparr>chunks := m\<rparr>)"
  by (simp add: wellFormed_def requestersMap_def)

lemma wellFormed_chunkArrives: "wellFormed s \<Longrightarrow> wellFormed (chunkArrives SM key p s)"
  by (simp add: chunkArrives_def Let_def wellFormed_foldl_resume wellFormed_foldl_invoke
      wellFormed_chunks_update)

lemma wellFormed_fetchChunk: "wellFormed s \<Longrightarrow> wellFormed (snd (fetchChunk SM s pos tr))"
  by (simp add: fetchChunk_def Let_def wellFormed_request split: option.splits)

lemma wellFormed_step: "wellFormed s \<Longrightarrow> wellFormed (step SM s e)"
  by (cases e)
     (simp_all add: wellFormed_fetchChunk wellFormed_rpcResolved wellFormed_rpcRejected
        wellFormed_chunkArrives)

lemma wellFormed_run: "wellFormed s \<Longrightarrow> wellFormed (run SM s evs)"
  unfolding run_def by (induction evs arbitrary: s) (simp_all add: wellFormed_step)

lemma wellFormed_initialSource: "wellFormed initialSource"
  by (simp add: wellFormed_def initialSource_def requestersMap_def)


subsection \<open>The invariant of one call\<close>

lemma frameInvariant_mono: "frameInvariant pos tr V fr \<Longrightarrow> V \<subseteq> V' \<Longrightarrow> frameInvariant pos tr V' fr"
  unfolding frameInvariant_def by blast

lemma frameInvariant_invokeRequester:
  assumes "i < length (frames s)" and "frameInvariant pos tr V (frames s ! i)"
    and "r = i \<Longrightarrow> tr c \<in> V"
  shows "frameInvariant pos tr V (frames (invokeRequester c s r) ! i)"
  using assms unfolding frame_invokeRequester [OF assms(1)] frameInvariant_def
  by (cases "call_outcome (frames s ! i)") auto

lemma frameInvariant_resumeCall:
  assumes "i < length (frames s)" and "frameInvariant pos tr V (frames s ! i)"
  shows "frameInvariant pos tr V (frames (resumeCall s r) ! i)"
  using assms unfolding frame_resumeCall [OF assms(1)] frameInvariant_def
  by (auto split: option.splits)

lemma frameInvariant_rpcResolved:
  assumes "i < length (frames s)" and "frameInvariant pos tr V (frames s ! i)"
  shows "frameInvariant pos tr V (frames (rpcResolved r s) ! i)"
  using assms unfolding frame_rpcResolved [OF assms(1)] frameInvariant_def
  by (auto split: option.splits)

lemma frameInvariant_rpcRejected:
  assumes "i < length (frames s)" and "frameInvariant pos tr V (frames s ! i)"
  shows "frameInvariant pos tr V (frames (rpcRejected r s) ! i)"
  using assms unfolding frame_rpcRejected [OF assms(1)] frameInvariant_def
  by auto

lemma frameInvariant_foldl_invoke:
  assumes "i < length (frames s)" and "frameInvariant pos tr V (frames s ! i)"
    and "i \<in> set rs \<Longrightarrow> tr c \<in> V"
  shows "frameInvariant pos tr V (frames (foldl (invokeRequester c) s rs) ! i)"
  using assms
proof (induction rs arbitrary: s)
  case Nil
  then show ?case by simp
next
  case (Cons r rs)
  have "frameInvariant pos tr V (frames (invokeRequester c s r) ! i)"
    using Cons.prems by (intro frameInvariant_invokeRequester) simp_all
  then show ?case
    using Cons.prems by (simp add: Cons.IH)
qed

lemma frameInvariant_foldl_resume:
  assumes "i < length (frames s)" and "frameInvariant pos tr V (frames s ! i)"
  shows "frameInvariant pos tr V (frames (foldl resumeCall s rs) ! i)"
  using assms
  by (induction rs arbitrary: s) (simp_all add: frameInvariant_resumeCall)

lemma length_frames_chunkArrives [simp]:
  "length (frames (chunkArrives SM key p s)) = length (frames s)"
  by (simp add: chunkArrives_def Let_def)

lemma entryOf_chunks_update [simp]: "entryOf (s\<lparr>chunks := m\<rparr>) key = entryOf s key"
  by (simp add: entryOf_def requestersMap_def)

lemma registered_key:
  assumes "wellFormed s" and "i \<in> set (entryOf s key)"
  shows "i < length (frames s) \<and> call_key (frames s ! i) = key"
proof -
  from assms(2) have "(key, entryOf s key) \<in> set (requestersMap s)"
    by (rule entryOf_in_map)
  with assms show ?thesis unfolding wellFormed_def by fast
qed

lemma frameInvariant_chunkArrives:
  assumes "wellFormed s" and "i < length (frames s)" and "frameInvariant pos tr V (frames s ! i)"
    and "key = pos \<Longrightarrow> tr (SliceViewChunk SM pos p) \<in> V"
  shows "frameInvariant pos tr V (frames (chunkArrives SM key p s) ! i)"
proof -
  have key: "tr (SliceViewChunk SM key p) \<in> V" if "i \<in> set (entryOf s key)"
  proof -
    from registered_key [OF assms(1) that] assms(3) have "key = pos"
      by (simp add: frameInvariant_def)
    with assms(4) show ?thesis by simp
  qed
  have "frameInvariant pos tr V
      (frames (foldl (invokeRequester (SliceViewChunk SM key p))
         (s\<lparr>chunks := (chunks s)(key \<mapsto> SliceViewChunk SM key p)\<rparr>) (entryOf s key)) ! i)"
    using assms(2,3) key by (intro frameInvariant_foldl_invoke) simp_all
  then show ?thesis
    using assms(2) by (simp add: chunkArrives_def Let_def frameInvariant_foldl_resume)
qed

lemma length_frames_step: "length (frames s) \<le> length (frames (step SM s e))"
  by (cases e) (simp_all add: fetchChunk_def Let_def frames_request split: option.splits)

lemma frameInvariant_step:
  assumes "wellFormed s" and "i < length (frames s)" and "frameInvariant pos tr V (frames s ! i)"
    and "\<And>p. e = ChunkArrives pos p \<Longrightarrow> tr (SliceViewChunk SM pos p) \<in> V"
  shows "frameInvariant pos tr V (frames (step SM s e) ! i)"
proof (cases e)
  case (FetchChunk position transform)
  then show ?thesis
    using assms(2,3) by (simp add: fetchChunk_def Let_def frame_request split: option.splits)
next
  case (RpcResolved r)
  then show ?thesis using assms(2,3) by (simp add: frameInvariant_rpcResolved)
next
  case (RpcRejected r)
  then show ?thesis using assms(2,3) by (simp add: frameInvariant_rpcRejected)
next
  case (ChunkArrives key p)
  then show ?thesis
    using assms by (simp add: frameInvariant_chunkArrives)
qed

lemma frameInvariant_run:
  assumes "wellFormed s" and "i < length (frames s)" and "frameInvariant pos tr V (frames s ! i)"
  shows "i < length (frames (run SM s evs)) \<and>
     frameInvariant pos tr (V \<union> {tr (SliceViewChunk SM pos p) | p. ChunkArrives pos p \<in> set evs})
       (frames (run SM s evs) ! i)"
  using assms
proof (induction evs arbitrary: s V)
  case Nil
  then show ?case by (simp add: run_def)
next
  case (Cons e evs)
  let ?V = "V \<union> {tr (SliceViewChunk SM pos p) | p. e = ChunkArrives pos p}"
  have wf: "wellFormed (step SM s e)" using Cons.prems(1) by (rule wellFormed_step)
  have len: "i < length (frames (step SM s e))"
    using Cons.prems(2) length_frames_step [of s SM e] by simp
  have "frameInvariant pos tr ?V (frames s ! i)"
    using Cons.prems(3) by (rule frameInvariant_mono) blast
  then have inv: "frameInvariant pos tr ?V (frames (step SM s e) ! i)"
    using Cons.prems(1,2) by (intro frameInvariant_step) auto
  have eq: "?V \<union> {tr (SliceViewChunk SM pos p) | p. ChunkArrives pos p \<in> set evs} =
      V \<union> {tr (SliceViewChunk SM pos p) | p. ChunkArrives pos p \<in> set (e # evs)}"
    by auto
  show ?case
    using Cons.IH [OF wf len inv] by (simp add: run_def eq)
qed


subsection \<open>A call that is left waiting\<close>

lemma map_of_map_set: "map_of (map_set k v m) k = Some v"
  by (induction m) auto

lemma map_of_map_set_other: "k' \<noteq> k \<Longrightarrow> map_of (map_set k v m) k' = map_of m k'"
  by (induction m) auto

lemma entryOf_request:
  "entryOf (fetchChunk_request s key tr) key = entryOf s key @ [length (frames s)]"
  by (simp add: entryOf_def requestersMap_request map_of_map_set)

lemma rpcRequests_request: "rpcRequests (fetchChunk_request s key tr) = rpcRequests s @ [key]"
  by (simp add: fetchChunk_request_def Let_def)

lemma refCount_request: "source_refCount (fetchChunk_request s key tr) = source_refCount s + 1"
  by (simp add: fetchChunk_request_def Let_def)

lemma chunks_request [simp]: "chunks (fetchChunk_request s key tr) = chunks s"
  by (simp add: fetchChunk_request_def Let_def)

lemma fetchChunk_waits:
  assumes "chunks s key = None \<or> (\<exists>c. chunks s key = Some c \<and> SM < chunk_state c)"
  shows "fetchChunk SM s key tr = (None, fetchChunk_request s key tr)"
  using assms by (auto simp: fetchChunk_def Let_def)

lemma waiting_call_safety:
  assumes "wellFormed s"
    and "call_outcome (frames (run SM (fetchChunk_request s key tr) events) ! length (frames s))
           = Some (Resolved v)"
  shows "\<exists>payload. ChunkArrives key payload \<in> set events \<and> v = tr (SliceViewChunk SM key payload)"
proof -
  let ?s' = "fetchChunk_request s key tr"
  let ?i = "length (frames s)"
  have wf: "wellFormed ?s'" using assms(1) by (rule wellFormed_request)
  have len: "?i < length (frames ?s')" by (simp add: frames_request)
  have inv: "frameInvariant key tr {} (frames ?s' ! ?i)"
    by (simp add: frames_request frameInvariant_def)
  from frameInvariant_run [OF wf len inv, of SM events] assms(2)
  have "v \<in> {tr (SliceViewChunk SM key p) | p. ChunkArrives key p \<in> set events}"
    unfolding frameInvariant_def by auto
  then show ?thesis by blast
qed

text \<open>
  Claim C1. A call of \<open>fetchChunk\<close> for a position whose chunk is in the chunk map in a
  state at or before \<open>SYSTEM_MEMORY\<close> (in the order of the enumeration) resolves at once
  with the transform applied to that chunk and leaves the source as it was: no chunk
  request is sent and no requester is registered. Every other call registers one
  requester at the end of the entry of its key, sends one chunk request and takes one
  reference; and, in a well-formed source, whatever happens afterwards, the call
  resolves with a value only if a chunk for its position has arrived in system
  memory, and then with its transform applied to that chunk.
\<close>

theorem fetchChunk_resident_or_waits:
  "(\<forall>c. chunks this key = Some c \<and> chunk_state c \<le> SYSTEM_MEMORY \<longrightarrow>
       fetchChunk SYSTEM_MEMORY this key transform = (Some (transform c), this))
   \<and> ((chunks this key = None \<or> (\<exists>c. chunks this key = Some c \<and> SYSTEM_MEMORY < chunk_state c)) \<longrightarrow>
       (let this' = snd (fetchChunk SYSTEM_MEMORY this key transform);
            requester = length (frames this)
        in fst (fetchChunk SYSTEM_MEMORY this key transform) = None
         \<and> entryOf this' key = entryOf this key @ [requester]
         \<and> rpcRequests this' = rpcRequests this @ [key]
         \<and> source_refCount this' = source_refCount this + 1
         \<and> frames this' = frames this @
              [\<lparr>call_key = key, call_transform = transform, rpcSettled = False,
                promiseValue = None, call_outcome = None\<rparr>]
         \<and> (wellFormed this \<longrightarrow>
              (\<forall>events v.
                 call_outcome (frames (run SYSTEM_MEMORY this' events) ! requester) = Some (Resolved v) \<longrightarrow>
                 (\<exists>payload. ChunkArrives key payload \<in> set events
                    \<and> v = transform (SliceViewChunk SYSTEM_MEMORY key payload))))))"
proof -
  have fast: "fetchChunk SYSTEM_MEMORY this key transform = (Some (transform c), this)"
    if "chunks this key = Some c" and "chunk_state c \<le> SYSTEM_MEMORY" for c
    using that by (simp add: fetchChunk_def Let_def)
  have slow: "fetchChunk SYSTEM_MEMORY this key transform = (None, fetchChunk_request this key transform)"
    if "chunks this key = None \<or> (\<exists>c. chunks this key = Some c \<and> SYSTEM_MEMORY < chunk_state c)"
    using that by (rule fetchChunk_waits)
  show ?thesis
    using fast slow waiting_call_safety [of this SYSTEM_MEMORY key transform]
    by (simp add: Let_def entryOf_request rpcRequests_request refCount_request frames_request)
qed


lemma example_waiting:
  "snd (fetchChunk 1 (initialSource :: (nat, nat) SourceState) exampleKey (payloadPlus 1)) =
     \<lparr>chunks = Map.empty, chunkRequesters = Some [(exampleKey, [0])], source_refCount = 2,
      rpcRequests = [exampleKey], frames = [newFrame exampleKey (payloadPlus 1)],
      requesterCalls = []\<rparr>"
  by (simp add: fetchChunk_def fetchChunk_request_def initialSource_def Let_def entryOf_def
      requestersMap_def newFrame_def)

lemma example_resolved:
  "run 1 \<lparr>chunks = Map.empty, chunkRequesters = Some [(exampleKey, [0])], source_refCount = 2,
      rpcRequests = [exampleKey], frames = [newFrame exampleKey (payloadPlus 1)],
      requesterCalls = []\<rparr>
     [ChunkArrives exampleKey 40, RpcResolved 0] =
   \<lparr>chunks = [exampleKey \<mapsto> SliceViewChunk 1 exampleKey 40], chunkRequesters = None,
    source_refCount = 1, rpcRequests = [exampleKey],
    frames = [\<lparr>call_key = exampleKey, call_transform = payloadPlus 1, rpcSettled = True,
               promiseValue = Some 41, call_outcome = Some (Resolved 41)\<rparr>],
    requesterCalls = [0]\<rparr>"
  by (simp add: run_def chunkArrives_def rpcResolved_def resumeCall_def invokeRequester_def
      setFrame_def fetchChunk_finally_def entryOf_def requestersMap_def newFrame_def Let_def
      SliceViewChunk_def payloadPlus_def indexOf_def splice1_def map_delete_def)

theorem fetchChunk_resident_or_waits_witness:
  "chunks ((initialSource :: (nat, nat) SourceState)\<lparr>chunks := [exampleKey \<mapsto> SliceViewChunk 1 exampleKey 40]\<rparr>)
      exampleKey = Some (SliceViewChunk 1 exampleKey 40)
   \<and> chunk_state (SliceViewChunk 1 exampleKey (40::nat)) \<le> 1
   \<and> fetchChunk 1 ((initialSource :: (nat, nat) SourceState)\<lparr>chunks := [exampleKey \<mapsto> SliceViewChunk 1 exampleKey 40]\<rparr>)
        exampleKey (payloadPlus 1)
      = (Some 41, initialSource\<lparr>chunks := [exampleKey \<mapsto> SliceViewChunk 1 exampleKey 40]\<rparr>)
   \<and> chunks (initialSource :: (nat, nat) SourceState) exampleKey = None
   \<and> wellFormed (initialSource :: (nat, nat) SourceState)
   \<and> fst (fetchChunk 1 (initialSource :: (nat, nat) SourceState) exampleKey (payloadPlus 1)) = None
   \<and> rpcRequests (snd (fetchChunk 1 (initialSource :: (nat, nat) SourceState) exampleKey (payloadPlus 1)))
      = [exampleKey]
   \<and> call_outcome (frames (run 1
        (snd (fetchChunk 1 (initialSource :: (nat, nat) SourceState) exampleKey (payloadPlus 1)))
        [ChunkArrives exampleKey 40, RpcResolved 0]) ! 0) = Some (Resolved 41)
   \<and> (\<exists>payload. ChunkArrives exampleKey payload \<in> set [ChunkArrives exampleKey 40, RpcResolved 0 :: (nat, nat) event]
        \<and> 41 = payloadPlus 1 (SliceViewChunk 1 exampleKey payload))"
proof -
  have res: "call_outcome (frames (run 1
        (snd (fetchChunk 1 (initialSource :: (nat, nat) SourceState) exampleKey (payloadPlus 1)))
        [ChunkArrives exampleKey 40, RpcResolved 0]) ! 0) = Some (Resolved 41)"
    unfolding example_waiting example_resolved by simp
  have none: "chunks (initialSource :: (nat, nat) SourceState) exampleKey = None"
    by (simp add: initialSource_def)
  show ?thesis
    using fetchChunk_resident_or_waits
        [where this = "(initialSource :: (nat, nat) SourceState)\<lparr>chunks := [exampleKey \<mapsto> SliceViewChunk 1 exampleKey 40]\<rparr>"
           and key = exampleKey and SYSTEM_MEMORY = 1 and transform = "payloadPlus 1"]
      fetchChunk_resident_or_waits
        [where this = "initialSource :: (nat, nat) SourceState"
           and key = exampleKey and SYSTEM_MEMORY = 1 and transform = "payloadPlus 1"]
      res none wellFormed_initialSource
    by (simp add: Let_def SliceViewChunk_def payloadPlus_def initialSource_def)
qed


subsection \<open>Several calls for one position\<close>


lemma run_append: "run SM s (evs @ evs') = run SM (run SM s evs) evs'"
  by (simp add: run_def)

















section \<open>Properties of fetching from the file tree\<close>



end
